theory Spec2Isabelle
  imports Complex_Main
begin

section \<open>JavaScript strings and numbers\<close>

text \<open>
  A JavaScript string is a sequence of UTF-16 code units; the regular expressions of the
  relay carry no \<open>u\<close> flag and therefore work on code units. The full-width brackets of the
  reply grammar are single code units of the basic plane.

  A JavaScript number is a finite value, one of the two infinities, or NaN. A finite
  number is modelled by its exact rational value; \<open>JSON.parse\<close> yields \<open>Infinity\<close> for a
  literal such as \<open>1e999\<close>. \<open>Math.max\<close> and \<open>Math.min\<close> of two numbers return NaN when
  either is NaN and otherwise follow the order of the extended reals. A number is truthy
  unless it is zero or NaN. \<open>JSON.stringify\<close> writes a number that is not finite as
  \<open>null\<close>.
\<close>

type_synonym cu = nat
type_synonym jsstr = "cu list"

datatype jsnum = NaN | NegInfinity | Finite rat | PosInfinity

fun Math_max :: "jsnum \<Rightarrow> jsnum \<Rightarrow> jsnum" where
  "Math_max NaN b = NaN"
| "Math_max a NaN = NaN"
| "Math_max PosInfinity b = PosInfinity"
| "Math_max a PosInfinity = PosInfinity"
| "Math_max NegInfinity b = b"
| "Math_max a NegInfinity = a"
| "Math_max (Finite x) (Finite y) = Finite (max x y)"

fun Math_min :: "jsnum \<Rightarrow> jsnum \<Rightarrow> jsnum" where
  "Math_min NaN b = NaN"
| "Math_min a NaN = NaN"
| "Math_min NegInfinity b = NegInfinity"
| "Math_min a NegInfinity = NegInfinity"
| "Math_min PosInfinity b = b"
| "Math_min a PosInfinity = a"
| "Math_min (Finite x) (Finite y) = Finite (min x y)"

definition truthyNumber :: "jsnum \<Rightarrow> bool" where
  "truthyNumber n = (n \<noteq> NaN \<and> n \<noteq> Finite 0)"

text \<open>What \<open>JSON.stringify\<close> sends for a number: its value, or \<open>null\<close> (here \<open>None\<close>).\<close>

definition transmitted :: "jsnum \<Rightarrow> rat option" where
  "transmitted n = (case n of Finite q \<Rightarrow> Some q | _ \<Rightarrow> None)"

definition u16 :: "string \<Rightarrow> jsstr" where
  "u16 s = map of_char s"

definition startsWith :: "jsstr \<Rightarrow> jsstr \<Rightarrow> bool" where
  "startsWith s p = (take (length p) s = p)"

fun includes_str :: "jsstr \<Rightarrow> jsstr \<Rightarrow> bool" where
  "includes_str [] p = (p = [])"
| "includes_str (c # cs) p = (startsWith (c # cs) p \<or> includes_str cs p)"

text \<open>\<open>WhiteSpace\<close> and \<open>LineTerminator\<close> of ECMAScript: what \<open>\s\<close> matches and \<open>trim\<close> strips.\<close>

definition isSpace :: "cu \<Rightarrow> bool" where
  "isSpace c = (c \<in> {9, 10, 11, 12, 13, 32, 160, 5760, 8232, 8233, 8239, 8287, 12288, 65279}
                \<or> (8192 \<le> c \<and> c \<le> 8202))"

definition isLineTerminator :: "cu \<Rightarrow> bool" where
  "isLineTerminator c = (c \<in> {10, 13, 8232, 8233})"

definition isDigit :: "cu \<Rightarrow> bool" where
  "isDigit c = (48 \<le> c \<and> c \<le> 57)"

text \<open>The class \<open>[a-zA-Z0-9_-]\<close>.\<close>

definition isIdChar :: "cu \<Rightarrow> bool" where
  "isIdChar c = ((97 \<le> c \<and> c \<le> 122) \<or> (65 \<le> c \<and> c \<le> 90) \<or> (48 \<le> c \<and> c \<le> 57)
                 \<or> c = 95 \<or> c = 45)"

definition trim :: "jsstr \<Rightarrow> jsstr" where
  "trim s = rev (dropWhile isSpace (rev (dropWhile isSpace s)))"

text \<open>\<open>s.split('\n')\<close>: never empty; the last element is the text after the last newline.\<close>

fun split_nl :: "jsstr \<Rightarrow> jsstr list" where
  "split_nl [] = [[]]"
| "split_nl (c # cs) =
     (if c = 10 then [] # split_nl cs
      else (case split_nl cs of [] \<Rightarrow> [[c]] | l # ls \<Rightarrow> (c # l) # ls))"

section \<open>Backtracking regular expressions\<close>

text \<open>
  The matcher returns the successes of a pattern at a position in the order in which the
  backtracking matcher of ECMAScript tries them; the match is the first one. A match state
  is the unread rest of the subject and the captures made so far. A greedy star tries one
  more iteration first and rejects an iteration that consumed nothing.
\<close>

datatype re =
    Lit jsstr
  | Cls "cu \<Rightarrow> bool"
  | Seq re re
  | Alt re re
  | Star re
  | Grp nat re
  | Bol
  | Eol

type_synonym mstate = "jsstr \<times> (nat \<times> jsstr) list"

function ms :: "jsstr \<Rightarrow> re \<Rightarrow> mstate \<Rightarrow> mstate list" where
  "ms inp (Lit l) st =
     (if take (length l) (fst st) = l then [(drop (length l) (fst st), snd st)] else [])"
| "ms inp (Cls P) st =
     (case fst st of [] \<Rightarrow> [] | x # xs \<Rightarrow> if P x then [(xs, snd st)] else [])"
| "ms inp (Seq a b) st = concat (map (ms inp b) (ms inp a st))"
| "ms inp (Alt a b) st = ms inp a st @ ms inp b st"
| "ms inp (Star a) st =
     concat (map (\<lambda>st'. if length (fst st') < length (fst st) then ms inp (Star a) st' else [])
                 (ms inp a st)) @ [st]"
| "ms inp (Grp i a) st =
     map (\<lambda>st'. (fst st', (i, take (length (fst st) - length (fst st')) (fst st)) # snd st'))
         (ms inp a st)"
| "ms inp Bol st = (if length (fst st) = length inp then [st] else [])"
| "ms inp Eol st = (if fst st = [] then [st] else [])"
  by pat_completeness auto
termination
  by (relation "inv_image (measure size <*lex*> measure length) (\<lambda>(inp, r, st). (r, fst st))")
     auto

definition Opt :: "re \<Rightarrow> re" where
  "Opt r = Alt r (Lit [])"

definition Plus :: "re \<Rightarrow> re" where
  "Plus r = Seq r (Star r)"

fun Rep :: "nat \<Rightarrow> re \<Rightarrow> re" where
  "Rep 0 r = Lit []"
| "Rep (Suc n) r = Seq r (Rep n r)"

fun Seqs :: "re list \<Rightarrow> re" where
  "Seqs [] = Lit []"
| "Seqs [r] = r"
| "Seqs (r # rs) = Seq r (Seqs rs)"

text \<open>
  One result of \<open>RegExp.prototype.exec\<close>: the matched text (\<open>match[0]\<close>), the captures,
  and the rest of the subject after the match (where \<open>lastIndex\<close> points). \<open>cap m i\<close> is
  \<open>match[i]\<close>; in the patterns of this program every group takes part in every match.
\<close>

record rmatch =
  m_whole :: jsstr
  m_caps :: "(nat \<times> jsstr) list"
  m_rest :: jsstr

definition cap :: "rmatch \<Rightarrow> nat \<Rightarrow> jsstr" where
  "cap m i = (case map_of (m_caps m) i of None \<Rightarrow> [] | Some s \<Rightarrow> s)"

definition match_at :: "jsstr \<Rightarrow> re \<Rightarrow> jsstr \<Rightarrow> rmatch option" where
  "match_at inp r s =
     (case ms inp r (s, []) of
        [] \<Rightarrow> None
      | st # _ \<Rightarrow> Some \<lparr>m_whole = take (length s - length (fst st)) s,
                         m_caps = snd st, m_rest = fst st\<rparr>)"

text \<open>The search for the leftmost match, from the position where \<open>s\<close> starts.\<close>

fun search_from :: "jsstr \<Rightarrow> re \<Rightarrow> jsstr \<Rightarrow> rmatch option" where
  "search_from inp r [] = match_at inp r []"
| "search_from inp r (c # cs) =
     (case match_at inp r (c # cs) of
        Some m \<Rightarrow> Some m
      | None \<Rightarrow> search_from inp r cs)"

definition re_match :: "re \<Rightarrow> jsstr \<Rightarrow> rmatch option" where
  "re_match r s = search_from s r s"

definition re_test :: "re \<Rightarrow> jsstr \<Rightarrow> bool" where
  "re_test r s = (re_match r s \<noteq> None)"

text \<open>
  The loop \<open>while ((match = pattern.exec(content)) !== null) { ... }\<close> of a global pattern,
  stopped after \<open>limit\<close> matches when the loop has such a condition. A match that consumes
  nothing would leave \<open>lastIndex\<close> in place and the loop would never end: that is the
  value \<open>None\<close>.
\<close>

function exec_loop :: "jsstr \<Rightarrow> re \<Rightarrow> nat option \<Rightarrow> jsstr \<Rightarrow> rmatch list \<Rightarrow> rmatch list option" where
  "exec_loop inp r limit s acc =
     (case search_from inp r s of
        None \<Rightarrow> Some acc
      | Some m \<Rightarrow>
          if (case limit of None \<Rightarrow> False | Some k \<Rightarrow> k \<le> length acc) then Some acc
          else if length (m_rest m) < length s then exec_loop inp r limit (m_rest m) (acc @ [m])
          else None)"
  by pat_completeness auto
termination
  by (relation "measure (\<lambda>(inp, r, limit, s, acc). length s)") auto

section \<open>Upstream dispatcher: model class and token limit\<close>

datatype role = User | Assistant | System

record chatMessage =
  cm_role :: role
  cm_content :: jsstr

text \<open>The body of the chat request (\<open>ChatRequest\<close>); an absent field is \<open>None\<close>.\<close>

record chatRequest =
  rq_messages :: "chatMessage list"
  rq_model :: "jsstr option"
  rq_temperature :: "jsnum option"
  rq_max_tokens :: "jsnum option"
  rq_max_completion_tokens :: "jsnum option"
  rq_streamMode :: "bool option"

text \<open>
  The fields of \<open>adminConfig.AIRecommendConfig\<close> that the dispatcher reads. Its declaration
  is not part of the sources at hand; the model, the token limit and the temperature are
  taken to be set, as a string and two numbers. The fields of the request are numbers by
  the interface \<open>ChatRequest\<close>; a configured limit that is missing behaves in the
  computation below as NaN does.
\<close>

record aiConfig =
  cfg_model :: jsstr
  cfg_maxTokens :: jsnum
  cfg_temperature :: jsnum
  cfg_streamMode :: "bool option"

definition REASONING_MODEL_PREFIXES :: "jsstr list" where
  "REASONING_MODEL_PREFIXES = [u16 ''o1'', u16 ''o3'', u16 ''o4'']"

definition isReasoningModel :: "jsstr \<Rightarrow> bool" where
  "isReasoningModel modelName =
     (list_ex (\<lambda>prefix. startsWith modelName prefix) REASONING_MODEL_PREFIXES
      \<or> includes_str modelName (u16 ''gpt-5''))"

definition GPT5_MIN :: jsnum where "GPT5_MIN = Finite 2000"
definition GPT5_MAX :: jsnum where "GPT5_MAX = Finite 128000"
definition O3_O4_MIN :: jsnum where "O3_O4_MIN = Finite 1500"
definition O3_O4_MAX :: jsnum where "O3_O4_MAX = Finite 100000"
definition REASONING_MIN :: jsnum where "REASONING_MIN = Finite 1000"
definition NORMAL_MIN :: jsnum where "NORMAL_MIN = Finite 500"
definition GPT4_MAX :: jsnum where "GPT4_MAX = Finite 32768"

text \<open>\<open>a || b\<close> on an optional string and on optional numbers.\<close>

definition or_str :: "jsstr option \<Rightarrow> jsstr \<Rightarrow> jsstr" where
  "or_str a b = (case a of None \<Rightarrow> b | Some s \<Rightarrow> if s = [] then b else s)"

definition or_num :: "jsnum option \<Rightarrow> jsnum \<Rightarrow> jsnum" where
  "or_num a b = (case a of None \<Rightarrow> b | Some n \<Rightarrow> if truthyNumber n then n else b)"

definition requestModel :: "aiConfig \<Rightarrow> chatRequest \<Rightarrow> jsstr" where
  "requestModel cfg rq = or_str (rq_model rq) (cfg_model cfg)"

definition requestedTokenLimit :: "aiConfig \<Rightarrow> chatRequest \<Rightarrow> jsnum" where
  "requestedTokenLimit cfg rq =
     or_num (rq_max_tokens rq) (or_num (rq_max_completion_tokens rq) (cfg_maxTokens cfg))"

definition clampTokenLimit :: "jsstr \<Rightarrow> jsnum \<Rightarrow> jsnum" where
  "clampTokenLimit model tokenLimit =
     (if isReasoningModel model then
        (if includes_str model (u16 ''gpt-5'')
           then Math_min (Math_max tokenLimit GPT5_MIN) GPT5_MAX
         else if startsWith model (u16 ''o3'') \<or> startsWith model (u16 ''o4'')
           then Math_min (Math_max tokenLimit O3_O4_MIN) O3_O4_MAX
         else Math_max tokenLimit REASONING_MIN)
      else
        (let t = Math_max tokenLimit NORMAL_MIN
         in if includes_str model (u16 ''gpt-4'') then Math_min t GPT4_MAX else t))"

record requestBody =
  rb_model :: jsstr
  rb_messages :: "chatMessage list"
  rb_stream :: bool
  rb_temperature :: "jsnum option"
  rb_max_tokens :: "jsnum option"
  rb_max_completion_tokens :: "jsnum option"

definition useStream :: "aiConfig \<Rightarrow> chatRequest \<Rightarrow> bool" where
  "useStream cfg rq =
     (case rq_streamMode rq of
        Some b \<Rightarrow> b
      | None \<Rightarrow> (case cfg_streamMode cfg of Some b \<Rightarrow> b | None \<Rightarrow> True))"

definition buildRequestBody :: "aiConfig \<Rightarrow> chatRequest \<Rightarrow> jsstr \<Rightarrow> requestBody" where
  "buildRequestBody cfg rq systemPrompt =
     (let model = requestModel cfg rq;
          tokenLimit = clampTokenLimit model (requestedTokenLimit cfg rq);
          useMaxCompletionTokens = isReasoningModel model
      in \<lparr>rb_model = model,
          rb_messages = \<lparr>cm_role = System, cm_content = systemPrompt\<rparr> # rq_messages rq,
          rb_stream = useStream cfg rq,
          rb_temperature =
            (if useMaxCompletionTokens then None
             else Some (case rq_temperature rq of Some t \<Rightarrow> t | None \<Rightarrow> cfg_temperature cfg)),
          rb_max_tokens = (if useMaxCompletionTokens then None else Some tokenLimit),
          rb_max_completion_tokens =
            (if useMaxCompletionTokens then Some tokenLimit else None)\<rparr>)"

section \<open>Content extraction\<close>

text \<open>
  \<open>youtubePattern\<close>:
  \<^verbatim>\<open>(?:https?:\/\/)?(?:www\.)?(?:youtube\.com\/watch\?v=|youtu\.be\/|youtube\.com\/embed\/|youtube\.com\/v\/)([a-zA-Z0-9_-]+)\<close>
\<close>

definition youtubePattern :: re where
  "youtubePattern =
     Seqs [Opt (Seqs [Lit (u16 ''http''), Opt (Lit (u16 ''s'')), Lit (u16 ''://'')]),
           Opt (Lit (u16 ''www.'')),
           Alt (Lit (u16 ''youtube.com/watch?v=''))
             (Alt (Lit (u16 ''youtu.be/''))
               (Alt (Lit (u16 ''youtube.com/embed/'')) (Lit (u16 ''youtube.com/v/'')))),
           Grp 1 (Plus (Cls isIdChar))]"

record videoLink =
  vl_originalUrl :: jsstr
  vl_videoId :: jsstr
  vl_fullMatch :: jsstr

definition detectVideoLinks :: "jsstr \<Rightarrow> videoLink list option" where
  "detectVideoLinks content =
     map_option
       (map (\<lambda>m. \<lparr>vl_originalUrl = m_whole m, vl_videoId = cap m 1, vl_fullMatch = m_whole m\<rparr>))
       (exec_loop content youtubePattern None content [])"

text \<open>\<open>videoPattern\<close>: an opening bracket U+3010, one or more code units other than U+3011, U+3011.\<close>

definition videoPattern :: re where
  "videoPattern = Seqs [Lit [12304], Grp 1 (Plus (Cls (\<lambda>c. c \<noteq> 12305))), Lit [12305]]"

definition extractYouTubeSearchKeywords :: "jsstr \<Rightarrow> jsstr list option" where
  "extractYouTubeSearchKeywords content =
     map_option (map (\<lambda>m. trim (cap m 1))) (exec_loop content videoPattern (Some 4) content [])"

text \<open>
  \<open>moviePattern\<close>: U+300A, title, U+300B, \<^verbatim>\<open>\s*\((\d{4})\)\s*\[([^\]]+)\]\s*-\s*(.*)\<close>.
\<close>

definition moviePattern :: re where
  "moviePattern =
     Seqs [Lit [12298], Grp 1 (Plus (Cls (\<lambda>c. c \<noteq> 12299))), Lit [12299],
           Star (Cls isSpace), Lit (u16 ''(''), Grp 2 (Rep 4 (Cls isDigit)), Lit (u16 '')''),
           Star (Cls isSpace), Lit (u16 ''[''), Grp 3 (Plus (Cls (\<lambda>c. c \<noteq> 93))), Lit (u16 '']''),
           Star (Cls isSpace), Lit (u16 ''-''), Star (Cls isSpace),
           Grp 4 (Star (Cls (\<lambda>c. \<not> isLineTerminator c)))]"

record recommendation =
  rc_title :: jsstr
  rc_year :: jsstr
  rc_genre :: jsstr
  rc_description :: jsstr

text \<open>The placeholder description, \<open>AI\<close> followed by U+63A8 U+8350 U+5F71 U+7247.\<close>

definition placeholderDescription :: jsstr where
  "placeholderDescription = [65, 73, 25512, 33616, 24433, 29255]"

definition recommendationOf :: "rmatch \<Rightarrow> recommendation" where
  "recommendationOf m =
     \<lparr>rc_title = trim (cap m 1), rc_year = trim (cap m 2), rc_genre = trim (cap m 3),
      rc_description = (if trim (cap m 4) = [] then placeholderDescription else trim (cap m 4))\<rparr>"

fun extract_loop :: "jsstr list \<Rightarrow> recommendation list \<Rightarrow> recommendation list" where
  "extract_loop [] recommendations = recommendations"
| "extract_loop (line # lines) recommendations =
     (if length recommendations \<ge> 4 then recommendations
      else (case re_match moviePattern line of
              Some m \<Rightarrow> extract_loop lines (recommendations @ [recommendationOf m])
            | None \<Rightarrow> extract_loop lines recommendations))"

definition extractRecommendations :: "jsstr \<Rightarrow> recommendation list" where
  "extractRecommendations content = extract_loop (split_nl content) []"

section \<open>JSON values\<close>

text \<open>
  What \<open>JSON.parse\<close> and \<open>response.json()\<close> return. An object holds its own properties;
  \<open>undefined\<close> is \<open>None\<close> of \<open>json option\<close>. None of the property names read by the relay
  (\<open>choices\<close>, \<open>delta\<close>, \<open>content\<close>, \<open>title\<close>, \<open>author_name\<close>) is inherited from a
  prototype, so reading one from a string, number, boolean or array gives \<open>undefined\<close>.
\<close>

datatype json =
    JNull
  | JBool bool
  | JNum jsnum
  | JStr jsstr
  | JArr "json list"
  | JObj "(jsstr \<times> json) list"

fun truthy :: "json option \<Rightarrow> bool" where
  "truthy None = False"
| "truthy (Some JNull) = False"
| "truthy (Some (JBool b)) = b"
| "truthy (Some (JNum n)) = truthyNumber n"
| "truthy (Some (JStr s)) = (s \<noteq> [])"
| "truthy (Some (JArr xs)) = True"
| "truthy (Some (JObj kvs)) = True"

text \<open>\<open>v?.name\<close>.\<close>

fun opt_prop :: "json option \<Rightarrow> jsstr \<Rightarrow> json option" where
  "opt_prop (Some (JObj kvs)) name = map_of kvs name"
| "opt_prop v name = None"

text \<open>\<open>v?.[0]\<close>.\<close>

fun opt_index0 :: "json option \<Rightarrow> json option" where
  "opt_index0 (Some (JArr xs)) = (case xs of [] \<Rightarrow> None | x # _ \<Rightarrow> Some x)"
| "opt_index0 (Some (JStr s)) = (case s of [] \<Rightarrow> None | c # _ \<Rightarrow> Some (JStr [c]))"
| "opt_index0 (Some (JObj kvs)) = map_of kvs (u16 ''0'')"
| "opt_index0 v = None"

datatype 'a js_result = Throws | Returns 'a

text \<open>
  \<open>parsed.choices?.[0]?.delta?.content\<close>: the first property read is not optional and
  throws a TypeError on \<open>null\<close>.
\<close>

definition deltaContent :: "json \<Rightarrow> json option js_result" where
  "deltaContent parsed =
     (if parsed = JNull then Throws
      else Returns (opt_prop (opt_prop (opt_index0 (opt_prop (Some parsed) (u16 ''choices'')))
                       (u16 ''delta'')) (u16 ''content'')))"

section \<open>Enrichment fan-out\<close>

text \<open>
  The outcome of one \<open>fetch\<close> of the embed-metadata endpoint: the promise rejects, or a
  response arrives with its \<open>ok\<close> flag and the value of \<open>response.json()\<close> (\<open>None\<close> when
  that rejects). The network is an oracle from the number of the call and the URL.
\<close>

datatype oembed_outcome = FetchRejected | FetchResponse bool "json option"

type_synonym oembed_net = "nat \<Rightarrow> jsstr \<Rightarrow> oembed_outcome"

record videoLinkResult =
  vr_videoId :: jsstr
  vr_originalUrl :: jsstr
  vr_title :: json
  vr_channelName :: "json option"
  vr_thumbnail :: "jsstr option"
  vr_playable :: bool
  vr_embedUrl :: "jsstr option"
  vr_error :: "jsstr option"

definition defaultTitle :: jsstr where
  "defaultTitle = [30452, 25509, 25773, 25918, 30340] @ u16 ''YouTube'' @ [35270, 39057]"

definition unknownChannel :: jsstr where
  "unknownChannel = [26410, 30693, 39057, 36947]"

definition failedTitle :: jsstr where
  "failedTitle = [35299, 26512, 22833, 36133, 30340, 35270, 39057]"

definition errorMarker :: jsstr where
  "errorMarker = [26080, 27861, 33719, 21462, 35270, 39057, 20449, 24687]"

definition oembedUrl :: "jsstr \<Rightarrow> jsstr" where
  "oembedUrl videoId =
     u16 ''https://www.youtube.com/oembed?url=https://www.youtube.com/watch?v='' @ videoId
     @ u16 ''&format=json''"

definition thumbnailUrl :: "jsstr \<Rightarrow> jsstr" where
  "thumbnailUrl videoId = u16 ''https://img.youtube.com/vi/'' @ videoId @ u16 ''/mqdefault.jpg''"

definition embedUrl :: "jsstr \<Rightarrow> jsstr" where
  "embedUrl videoId = u16 ''https://www.youtube.com/embed/'' @ videoId @ u16 ''?autoplay=1&rel=0''"

text \<open>\<open>v || default\<close>.\<close>

definition or_json :: "json option \<Rightarrow> jsstr \<Rightarrow> json" where
  "or_json v d = (case v of Some x \<Rightarrow> if truthy v then x else JStr d | None \<Rightarrow> JStr d)"

definition parseOneLink :: "oembed_outcome \<Rightarrow> videoLink \<Rightarrow> videoLinkResult" where
  "parseOneLink outcome link =
     (case outcome of
        FetchResponse True (Some videoInfo) \<Rightarrow>
          \<lparr>vr_videoId = vl_videoId link, vr_originalUrl = vl_originalUrl link,
           vr_title = or_json (opt_prop (Some videoInfo) (u16 ''title'')) defaultTitle,
           vr_channelName =
             Some (or_json (opt_prop (Some videoInfo) (u16 ''author_name'')) unknownChannel),
           vr_thumbnail = Some (thumbnailUrl (vl_videoId link)),
           vr_playable = True,
           vr_embedUrl = Some (embedUrl (vl_videoId link)),
           vr_error = None\<rparr>
      | FetchResponse False body \<Rightarrow>
          \<lparr>vr_videoId = vl_videoId link, vr_originalUrl = vl_originalUrl link,
           vr_title = JStr defaultTitle,
           vr_channelName = Some (JStr unknownChannel),
           vr_thumbnail = Some (thumbnailUrl (vl_videoId link)),
           vr_playable = True,
           vr_embedUrl = Some (embedUrl (vl_videoId link)),
           vr_error = None\<rparr>
      | _ \<Rightarrow>
          \<lparr>vr_videoId = vl_videoId link, vr_originalUrl = vl_originalUrl link,
           vr_title = JStr failedTitle,
           vr_channelName = None,
           vr_thumbnail = None,
           vr_playable = False,
           vr_embedUrl = None,
           vr_error = Some errorMarker\<rparr>)"

fun parse_loop :: "oembed_net \<Rightarrow> nat \<Rightarrow> videoLink list \<Rightarrow> videoLinkResult list \<Rightarrow> videoLinkResult list" where
  "parse_loop net k [] parsedVideos = parsedVideos"
| "parse_loop net k (link # links) parsedVideos =
     parse_loop net (Suc k) links
       (parsedVideos @ [parseOneLink (net k (oembedUrl (vl_videoId link))) link])"

definition handleVideoLinkParsing :: "oembed_net \<Rightarrow> videoLink list \<Rightarrow> videoLinkResult list" where
  "handleVideoLinkParsing net videoLinks = parse_loop net 0 videoLinks []"

record youtubeVideo =
  yv_id :: jsstr
  yv_title :: jsstr
  yv_description :: jsstr
  yv_thumbnail :: "jsstr option"
  yv_channelTitle :: jsstr
  yv_publishedAt :: jsstr

text \<open>
  The outcome of one search request: the fetch rejects; or a response arrives with its
  \<open>ok\<close> flag and the videos built from \<open>data.items\<close> (\<open>None\<close> when reading the body or
  the fields of the first item throws, the empty list when \<open>items\<close> is missing or empty).
\<close>

datatype search_outcome = SearchRejected | SearchResponse bool "youtubeVideo list option"

type_synonym search_net = "nat \<Rightarrow> jsstr \<Rightarrow> search_outcome"

record youtubeConfig =
  yt_enabled :: bool
  yt_apiKey :: "jsstr option"

definition hasApiKey :: "youtubeConfig \<Rightarrow> bool" where
  "hasApiKey c = (case yt_apiKey c of None \<Rightarrow> False | Some k \<Rightarrow> k \<noteq> [])"

fun search_loop :: "search_net \<Rightarrow> nat \<Rightarrow> jsstr list \<Rightarrow> youtubeVideo list \<Rightarrow> youtubeVideo list" where
  "search_loop net k [] videos = videos"
| "search_loop net k (keyword # keywords) videos =
     (if length videos \<ge> 4 then videos
      else (case net k keyword of
              SearchResponse True (Some (video # _)) \<Rightarrow>
                search_loop net (Suc k) keywords (videos @ [video])
            | _ \<Rightarrow> search_loop net (Suc k) keywords videos))"

datatype relay_error = ApiKeyMissing

definition searchYouTubeVideos :: "search_net \<Rightarrow> jsstr list \<Rightarrow> youtubeConfig \<Rightarrow> relay_error + youtubeVideo list" where
  "searchYouTubeVideos net keywords youtubeConfig =
     (if \<not> hasApiKey youtubeConfig then Inl ApiKeyMissing
      else Inr (search_loop net 0 keywords []))"

section \<open>Classification and the structured payload\<close>

text \<open>
  What the handler has in hand when the reply is complete: the links found in the last
  user message, the search configuration (\<open>adminConfig.YouTubeConfig\<close>, possibly
  undefined) and the two networks of the enrichment.
\<close>

record relayEnv =
  env_videoLinks :: "videoLink list"
  env_youtubeConfig :: "youtubeConfig option"
  env_oembed :: oembed_net
  env_search :: search_net

definition hasVideoLinks :: "relayEnv \<Rightarrow> bool" where
  "hasVideoLinks env = (length (env_videoLinks env) > 0)"

definition isYouTubeRecommendation :: "relayEnv \<Rightarrow> jsstr \<Rightarrow> bool" where
  "isYouTubeRecommendation env content =
     (case env_youtubeConfig env of
        None \<Rightarrow> False
      | Some youtubeConfig \<Rightarrow>
          yt_enabled youtubeConfig \<and> hasApiKey youtubeConfig
          \<and> includes_str content [12304] \<and> includes_str content [12305])"

datatype event =
    ContentDelta json
  | VideoLinks "videoLinkResult list"
  | YoutubeVideos "youtubeVideo list"
  | Recommendations "recommendation list"
  | Done

fun isStructured :: "event \<Rightarrow> bool" where
  "isStructured (VideoLinks v) = True"
| "isStructured (YoutubeVideos v) = True"
| "isStructured (Recommendations v) = True"
| "isStructured e = False"

text \<open>
  The branch \<open>if (done)\<close> of the streaming loop: the events enqueued at the end of the
  upstream stream. \<open>None\<close> stands for a keyword loop that does not return.
\<close>

definition finalEvents :: "relayEnv \<Rightarrow> jsstr \<Rightarrow> event list option" where
  "finalEvents env fullContent =
     (if fullContent = [] then Some [Done]
      else
        (let linkEvents =
               (if hasVideoLinks env
                then [VideoLinks (handleVideoLinkParsing (env_oembed env) (env_videoLinks env))]
                else [])
         in if isYouTubeRecommendation env fullContent then
              (case extractYouTubeSearchKeywords fullContent of
                 None \<Rightarrow> None
               | Some searchKeywords \<Rightarrow>
                   (case env_youtubeConfig env of
                      None \<Rightarrow> Some (linkEvents @ [Done])
                    | Some youtubeConfig \<Rightarrow>
                        (case searchYouTubeVideos (env_search env) searchKeywords youtubeConfig of
                           Inr youtubeVideos \<Rightarrow> Some (linkEvents @ [YoutubeVideos youtubeVideos, Done])
                         | Inl e \<Rightarrow> Some (linkEvents @ [Done]))))
            else
              (let recommendations = extractRecommendations fullContent
               in Some (linkEvents
                        @ (if length recommendations > 0 then [Recommendations recommendations]
                           else [])
                        @ [Done]))))"

text \<open>
  The non-streaming branch, from the check of the content on. Of the JSON object returned
  only the structured fields and \<open>type\<close> are kept; the other fields echo the upstream
  completion.
\<close>

record reply =
  rp_videoLinks :: "videoLinkResult list option"
  rp_youtubeVideos :: "youtubeVideo list option"
  rp_recommendations :: "recommendation list option"
  rp_type :: "jsstr option"

definition recommendationsReply :: "jsstr \<Rightarrow> reply" where
  "recommendationsReply aiContent =
     \<lparr>rp_videoLinks = None, rp_youtubeVideos = None,
      rp_recommendations = Some (extractRecommendations aiContent), rp_type = None\<rparr>"

definition nonStreamReply :: "relayEnv \<Rightarrow> jsstr option \<Rightarrow> (nat + reply) option" where
  "nonStreamReply env aiContentOpt =
     (case aiContentOpt of
        None \<Rightarrow> Some (Inl 500)
      | Some aiContent \<Rightarrow>
          if aiContent = [] \<or> trim aiContent = [] then Some (Inl 500)
          else if hasVideoLinks env then
            Some (Inr \<lparr>rp_videoLinks =
                         Some (handleVideoLinkParsing (env_oembed env) (env_videoLinks env)),
                       rp_youtubeVideos = None, rp_recommendations = None,
                       rp_type = Some (u16 ''video_link_parse'')\<rparr>)
          else if isYouTubeRecommendation env aiContent then
            (case extractYouTubeSearchKeywords aiContent of
               None \<Rightarrow> None
             | Some searchKeywords \<Rightarrow>
                 (case env_youtubeConfig env of
                    None \<Rightarrow> Some (Inr (recommendationsReply aiContent))
                  | Some youtubeConfig \<Rightarrow>
                      (case searchYouTubeVideos (env_search env) searchKeywords youtubeConfig of
                         Inr youtubeVideos \<Rightarrow>
                           Some (Inr \<lparr>rp_videoLinks = None, rp_youtubeVideos = Some youtubeVideos,
                                      rp_recommendations = None,
                                      rp_type = Some (u16 ''youtube_recommend'')\<rparr>)
                       | Inl e \<Rightarrow> Some (Inr (recommendationsReply aiContent)))))
          else Some (Inr (recommendationsReply aiContent)))"

section \<open>SSE stream transcoder\<close>

text \<open>
  The platform: the streaming text decoder, a machine that consumes one byte at a time and
  keeps its state between calls of \<open>decode(value, {stream: true})\<close>; \<open>JSON.parse\<close>
  (\<open>None\<close> when it throws); and the string conversion applied by \<open>+=\<close> to a value that
  is not a string.
\<close>

record ('d, 'b) platform =
  pf_decode :: "'d \<Rightarrow> 'b \<Rightarrow> 'd \<times> jsstr"
  pf_parse :: "jsstr \<Rightarrow> json option"
  pf_toString :: "json \<Rightarrow> jsstr"

fun decode_bytes :: "('d \<Rightarrow> 'b \<Rightarrow> 'd \<times> jsstr) \<Rightarrow> 'd \<Rightarrow> 'b list \<Rightarrow> 'd \<times> jsstr" where
  "decode_bytes step d [] = (d, [])"
| "decode_bytes step d (b # bs) =
     (case step d b of
        (d', t) \<Rightarrow> (case decode_bytes step d' bs of (d'', ts) \<Rightarrow> (d'', t @ ts)))"

record 'd tstate =
  ts_decoder :: 'd
  ts_buffer :: jsstr
  ts_fullContent :: jsstr
  ts_out :: "event list"

definition contentText :: "('d, 'b) platform \<Rightarrow> json \<Rightarrow> jsstr" where
  "contentText pf v = (case v of JStr s \<Rightarrow> s | _ \<Rightarrow> pf_toString pf v)"

definition processLine :: "('d, 'b) platform \<Rightarrow> 'd tstate \<Rightarrow> jsstr \<Rightarrow> 'd tstate" where
  "processLine pf st line =
     (let trimmedLine = trim line
      in if trimmedLine = [] \<or> trimmedLine = u16 ''data: [DONE]'' then st
         else if startsWith trimmedLine (u16 ''data: '') then
           (case pf_parse pf (drop 6 trimmedLine) of
              None \<Rightarrow> st
            | Some parsed \<Rightarrow>
                (case deltaContent parsed of
                   Throws \<Rightarrow> st
                 | Returns content \<Rightarrow>
                     (case content of
                        None \<Rightarrow> st
                      | Some c \<Rightarrow>
                          if truthy content
                          then st\<lparr>ts_fullContent := ts_fullContent st @ contentText pf c,
                                  ts_out := ts_out st @ [ContentDelta c]\<rparr>
                          else st)))
         else st)"

definition onChunk :: "('d, 'b) platform \<Rightarrow> 'd tstate \<Rightarrow> 'b list \<Rightarrow> 'd tstate" where
  "onChunk pf st chunk =
     (case decode_bytes (pf_decode pf) (ts_decoder st) chunk of
        (d, text) \<Rightarrow>
          (let lines = split_nl (ts_buffer st @ text)
           in foldl (processLine pf) (st\<lparr>ts_decoder := d, ts_buffer := last lines\<rparr>)
                (butlast lines)))"

text \<open>
  One result of \<open>reader.read()\<close> is a chunk or a rejection; the end of the list is
  \<open>done\<close>. The stream handed to the client ends closed or errored.
\<close>

datatype 'b read = ReadChunk "'b list" | ReadError

datatype stream_end = Closed | Errored

fun readLoop :: "('d, 'b) platform \<Rightarrow> relayEnv \<Rightarrow> 'd tstate \<Rightarrow> 'b read list \<Rightarrow> ('d tstate \<times> stream_end) option" where
  "readLoop pf env st [] =
     (case finalEvents env (ts_fullContent st) of
        None \<Rightarrow> None
      | Some evs \<Rightarrow> Some (st\<lparr>ts_out := ts_out st @ evs\<rparr>, Closed))"
| "readLoop pf env st (ReadError # rs) = Some (st, Errored)"
| "readLoop pf env st (ReadChunk chunk # rs) = readLoop pf env (onChunk pf st chunk) rs"

definition initialState :: "'d \<Rightarrow> 'd tstate" where
  "initialState d0 = \<lparr>ts_decoder = d0, ts_buffer = [], ts_fullContent = [], ts_out = []\<rparr>"

text \<open>\<open>start(controller)\<close>: a response without a body has no reader.\<close>

definition start :: "('d, 'b) platform \<Rightarrow> relayEnv \<Rightarrow> 'd \<Rightarrow> 'b read list option \<Rightarrow> ('d tstate \<times> stream_end) option" where
  "start pf env d0 body =
     (case body of
        None \<Rightarrow> Some (initialState d0, Closed)
      | Some reads \<Rightarrow> readLoop pf env (initialState d0) reads)"

text \<open>The text enqueued for an event; \<open>stringify\<close> is \<open>JSON.stringify\<close> of its payload.\<close>

definition encodeEvent :: "(event \<Rightarrow> jsstr) \<Rightarrow> event \<Rightarrow> jsstr" where
  "encodeEvent stringify ev =
     (case ev of
        Done \<Rightarrow> u16 ''data: [DONE]'' @ [10, 10]
      | _ \<Rightarrow> u16 ''data: '' @ stringify ev @ [10, 10])"

section \<open>YouTube edge proxy\<close>

definition INVIDIOUS_INSTANCES :: "jsstr list" where
  "INVIDIOUS_INSTANCES =
     [u16 ''https://inv.nadeko.net'',
      u16 ''https://invidious.nerdvpn.de'',
      u16 ''https://invidious.jing.rocks'',
      u16 ''https://invidious.privacyredirect.com'',
      u16 ''https://yt.artemislena.eu'']"

text \<open>
  The metadata of the mirror, read with the shape the handler expects of it; a missing
  property is \<open>None\<close>. A body of another shape makes the handler throw and is covered by
  the absent \<open>up_info\<close> of the response.
\<close>

record format =
  f_itag :: "jsstr option"
  f_url :: "jsstr option"
  f_type :: "jsstr option"
  f_qualityLabel :: "jsstr option"
  f_audioQuality :: "jsstr option"
  f_bitrate :: "jsstr option"

record videoInfo =
  vi_title :: "jsstr option"
  vi_author :: "jsstr option"
  vi_lengthSeconds :: "jsnum option"
  vi_thumbnail :: "jsstr option"
  vi_formatStreams :: "format list option"
  vi_adaptiveFormats :: "format list option"

text \<open>
  An upstream response: status, \<open>headers.get\<close>, the parsed metadata (for a metadata
  request) and the body bytes (\<open>None\<close> for a null body).
\<close>

record upstreamResponse =
  up_status :: nat
  up_header :: "jsstr \<Rightarrow> jsstr option"
  up_info :: "videoInfo option"
  up_body :: "nat list option"

definition response_ok :: "upstreamResponse \<Rightarrow> bool" where
  "response_ok r = (200 \<le> up_status r \<and> up_status r \<le> 299)"

record fetchRequest =
  fq_url :: jsstr
  fq_headers :: "(jsstr \<times> jsstr) list"

datatype fetch_outcome = Rejected | Response upstreamResponse

text \<open>
  The network answers a request, possibly depending on the requests made before it. A
  rejection is a timeout, a failed connection or a URL that \<open>fetch\<close> cannot parse. Every
  call of \<open>fetch\<close> that passes the check of its headers is appended to the trace.
\<close>

type_synonym network = "fetchRequest list \<Rightarrow> fetchRequest \<Rightarrow> fetch_outcome"

definition probeRequest :: "jsstr \<Rightarrow> fetchRequest" where
  "probeRequest instance = \<lparr>fq_url = instance @ u16 ''/api/v1/stats'', fq_headers = []\<rparr>"

fun probe_loop :: "network \<Rightarrow> fetchRequest list \<Rightarrow> jsstr list \<Rightarrow> jsstr option \<times> fetchRequest list" where
  "probe_loop net trace [] = (None, trace)"
| "probe_loop net trace (instance # instances) =
     (let rq = probeRequest instance
      in case net trace rq of
           Response response \<Rightarrow>
             if response_ok response then (Some instance, trace @ [rq])
             else probe_loop net (trace @ [rq]) instances
         | Rejected \<Rightarrow> probe_loop net (trace @ [rq]) instances)"

definition getWorkingInstance :: "network \<Rightarrow> fetchRequest list \<Rightarrow> jsstr option \<times> fetchRequest list" where
  "getWorkingInstance net trace = probe_loop net trace INVIDIOUS_INSTANCES"

definition videoInfoUrl :: "jsstr \<Rightarrow> jsstr \<Rightarrow> jsstr" where
  "videoInfoUrl instance videoId = instance @ u16 ''/api/v1/videos/'' @ videoId"

text \<open>\<open>getVideoInfo\<close>: \<open>None\<close> when the fetch rejects, the status is not 2xx or the body cannot be read.\<close>

definition getVideoInfo :: "network \<Rightarrow> fetchRequest list \<Rightarrow> jsstr \<Rightarrow> jsstr \<Rightarrow> videoInfo option \<times> fetchRequest list" where
  "getVideoInfo net trace videoId instance =
     (let rq = \<lparr>fq_url = videoInfoUrl instance videoId, fq_headers = []\<rparr>
      in case net trace rq of
           Rejected \<Rightarrow> (None, trace @ [rq])
         | Response response \<Rightarrow>
             if \<not> response_ok response then (None, trace @ [rq])
             else (up_info response, trace @ [rq]))"

text \<open>The query parameters and headers of a proxy request that the handler reads.\<close>

record proxyRequest =
  pq_v :: "jsstr option"
  pq_type :: "jsstr option"
  pq_itag :: "jsstr option"
  pq_range :: "jsstr option"
  pq_origin :: jsstr

text \<open>The test \<^verbatim>\<open>/^[a-zA-Z0-9_-]{11}$/\<close>.\<close>

definition videoIdPattern :: re where
  "videoIdPattern = Seqs [Bol, Rep 11 (Cls isIdChar), Eol]"

record streamEntry =
  se_quality :: "jsstr option"
  se_url :: jsstr
  se_directUrl :: "jsstr option"
  se_type :: "jsstr option"
  se_bitrate :: "jsstr option"

record infoPayload =
  ip_videoId :: jsstr
  ip_title :: "jsstr option"
  ip_author :: "jsstr option"
  ip_lengthSeconds :: "jsnum option"
  ip_thumbnail :: "jsstr option"
  ip_videoStreams :: "streamEntry list"
  ip_audioStreams :: "streamEntry list"
  ip_combinedStream :: "streamEntry option"
  ip_instance :: jsstr

datatype proxy_response =
    JsonError nat jsstr
  | InfoResponse infoPayload
  | StreamResponse nat "(jsstr \<times> jsstr) list" "nat list option"

text \<open>A template literal prints an undefined value as \<open>undefined\<close>.\<close>

definition tmpl :: "jsstr option \<Rightarrow> jsstr" where
  "tmpl v = (case v of None \<Rightarrow> u16 ''undefined'' | Some s \<Rightarrow> s)"

definition proxyUrl :: "jsstr \<Rightarrow> jsstr \<Rightarrow> jsstr \<Rightarrow> jsstr option \<Rightarrow> jsstr" where
  "proxyUrl proxyBase videoId kind itag =
     proxyBase @ u16 ''/api/proxy/youtube?v='' @ videoId @ u16 ''&type='' @ kind
     @ u16 ''&itag='' @ tmpl itag"

definition typeIncludes :: "format \<Rightarrow> jsstr \<Rightarrow> bool" where
  "typeIncludes f w = (case f_type f of None \<Rightarrow> False | Some t \<Rightarrow> includes_str t w)"

definition buildInfo :: "jsstr \<Rightarrow> jsstr \<Rightarrow> jsstr \<Rightarrow> videoInfo \<Rightarrow> infoPayload" where
  "buildInfo proxyBase videoId instance vi =
     (let adaptiveFormats = (case vi_adaptiveFormats vi of None \<Rightarrow> [] | Some fs \<Rightarrow> fs);
          formatStreams = (case vi_formatStreams vi of None \<Rightarrow> [] | Some fs \<Rightarrow> fs)
      in \<lparr>ip_videoId = videoId, ip_title = vi_title vi, ip_author = vi_author vi,
          ip_lengthSeconds = vi_lengthSeconds vi, ip_thumbnail = vi_thumbnail vi,
          ip_videoStreams =
            map (\<lambda>f. \<lparr>se_quality = f_qualityLabel f,
                       se_url = proxyUrl proxyBase videoId (u16 ''video'') (f_itag f),
                       se_directUrl = f_url f, se_type = f_type f, se_bitrate = None\<rparr>)
                (filter (\<lambda>f. typeIncludes f (u16 ''video'')) formatStreams),
          ip_audioStreams =
            map (\<lambda>f. \<lparr>se_quality = f_audioQuality f,
                       se_url = proxyUrl proxyBase videoId (u16 ''audio'') (f_itag f),
                       se_directUrl = f_url f, se_type = f_type f, se_bitrate = f_bitrate f\<rparr>)
                (filter (\<lambda>f. typeIncludes f (u16 ''audio'')) adaptiveFormats),
          ip_combinedStream =
            (case formatStreams of
               [] \<Rightarrow> None
             | f # _ \<Rightarrow> Some \<lparr>se_quality = f_qualityLabel f,
                               se_url = proxyUrl proxyBase videoId (u16 ''video'') (f_itag f),
                               se_directUrl = f_url f, se_type = None, se_bitrate = None\<rparr>),
          ip_instance = instance\<rparr>)"

definition nonEmpty :: "jsstr option \<Rightarrow> bool" where
  "nonEmpty v = (case v of None \<Rightarrow> False | Some s \<Rightarrow> s \<noteq> [])"

definition userAgent :: jsstr where
  "userAgent = u16 ''Mozilla/5.0 (Windows NT 10.0; Win64; x64) AppleWebKit/537.36''"

text \<open>
  A header value given to \<open>Headers\<close> (by \<open>set\<close>, or in the \<open>headers\<close> of a \<open>fetch\<close>) is
  first converted to a byte string, which throws when a code unit exceeds 255; then leading
  and trailing tabs, spaces, line feeds and carriage returns are stripped; then the value
  is refused, with an exception, when it still contains NUL, a line feed or a carriage
  return. \<open>None\<close> is the exception.
\<close>

definition isHttpWhitespace :: "cu \<Rightarrow> bool" where
  "isHttpWhitespace c = (c \<in> {9, 10, 13, 32})"

definition headerValue :: "jsstr \<Rightarrow> jsstr option" where
  "headerValue v =
     (if list_ex (\<lambda>c. c > 255) v then None
      else (let n = rev (dropWhile isHttpWhitespace (rev (dropWhile isHttpWhitespace v)))
            in if list_ex (\<lambda>c. c = 0 \<or> c = 10 \<or> c = 13) n then None else Some n))"

text \<open>The headers of the media fetch: the user agent, and the inbound \<open>Range\<close> if any.\<close>

definition streamRequestHeaders :: "jsstr option \<Rightarrow> (jsstr \<times> jsstr) list option" where
  "streamRequestHeaders rangeHeader =
     (case rangeHeader of
        None \<Rightarrow> Some [(u16 ''User-Agent'', userAgent)]
      | Some r \<Rightarrow>
          if r = [] then Some [(u16 ''User-Agent'', userAgent)]
          else (case headerValue r of
                  None \<Rightarrow> None
                | Some v \<Rightarrow> Some [(u16 ''User-Agent'', userAgent), (u16 ''Range'', v)]))"

definition corsHeaders :: "(jsstr \<times> jsstr) list" where
  "corsHeaders =
     [(u16 ''Access-Control-Allow-Origin'', u16 ''*''),
      (u16 ''Access-Control-Allow-Methods'', u16 ''GET, HEAD, OPTIONS''),
      (u16 ''Access-Control-Allow-Headers'', u16 ''Range'')]"

text \<open>\<open>format.type || 'video/mp4'\<close>.\<close>

definition contentTypeOf :: "format \<Rightarrow> jsstr" where
  "contentTypeOf fmt =
     (case f_type fmt of None \<Rightarrow> u16 ''video/mp4'' | Some t \<Rightarrow> if t = [] then u16 ''video/mp4'' else t)"

text \<open>\<open>if (v) responseHeaders.set(name, v)\<close> for a header read from the upstream response.\<close>

definition relayedHeader :: "jsstr \<Rightarrow> jsstr option \<Rightarrow> (jsstr \<times> jsstr) list option" where
  "relayedHeader name v =
     (case v of
        None \<Rightarrow> Some []
      | Some x \<Rightarrow>
          if x = [] then Some []
          else (case headerValue x of None \<Rightarrow> None | Some n \<Rightarrow> Some [(name, n)]))"

text \<open>
  The response headers, in the order in which they are set; \<open>None\<close> when a \<open>set\<close> throws.
  The values that are constants of the handler are legal.
\<close>

definition streamResponseHeaders :: "format \<Rightarrow> upstreamResponse \<Rightarrow> (jsstr \<times> jsstr) list option" where
  "streamResponseHeaders fmt streamResponse =
     (case headerValue (contentTypeOf fmt) of
        None \<Rightarrow> None
      | Some contentType \<Rightarrow>
          (case relayedHeader (u16 ''Content-Length'')
                  (up_header streamResponse (u16 ''Content-Length'')) of
             None \<Rightarrow> None
           | Some contentLength \<Rightarrow>
               (case relayedHeader (u16 ''Content-Range'')
                       (up_header streamResponse (u16 ''Content-Range'')) of
                  None \<Rightarrow> None
                | Some contentRange \<Rightarrow>
                    Some ([(u16 ''Content-Type'', contentType)] @ corsHeaders
                          @ [(u16 ''Accept-Ranges'', u16 ''bytes'')]
                          @ contentLength @ contentRange))))"

text \<open>
  A response cannot be built with a status outside 200..599, nor with a body and one of
  the statuses that allow none: the constructor throws.
\<close>

definition nullBodyStatus :: "nat \<Rightarrow> bool" where
  "nullBodyStatus status = (status \<in> {101, 103, 204, 205, 304})"

definition statusInRange :: "nat \<Rightarrow> bool" where
  "statusInRange status = (200 \<le> status \<and> status \<le> 599)"

text \<open>What the \<open>catch\<close> of the handler answers to any exception.\<close>

definition proxyFailed :: proxy_response where
  "proxyFailed = JsonError 500 (u16 ''Proxy failed'')"

text \<open>The stream branch once the format is found.\<close>

definition proxyStream :: "network \<Rightarrow> fetchRequest list \<Rightarrow> jsstr option \<Rightarrow> format \<Rightarrow> jsstr \<Rightarrow> proxy_response \<times> fetchRequest list" where
  "proxyStream net trace rangeHeader fmt url =
     (case streamRequestHeaders rangeHeader of
        None \<Rightarrow> (proxyFailed, trace)
      | Some headers \<Rightarrow>
          (let rq = \<lparr>fq_url = url, fq_headers = headers\<rparr>
           in case net trace rq of
                Rejected \<Rightarrow> (proxyFailed, trace @ [rq])
              | Response streamResponse \<Rightarrow>
                  if \<not> response_ok streamResponse \<and> up_status streamResponse \<noteq> 206
                  then (if statusInRange (up_status streamResponse)
                           \<and> \<not> nullBodyStatus (up_status streamResponse)
                        then JsonError (up_status streamResponse) (u16 ''Failed to fetch stream'')
                        else proxyFailed,
                        trace @ [rq])
                  else
                    (case streamResponseHeaders fmt streamResponse of
                       None \<Rightarrow> (proxyFailed, trace @ [rq])
                     | Some responseHeaders \<Rightarrow>
                         if up_body streamResponse \<noteq> None
                            \<and> nullBodyStatus (up_status streamResponse)
                         then (proxyFailed, trace @ [rq])
                         else (StreamResponse (up_status streamResponse) responseHeaders
                                 (up_body streamResponse),
                               trace @ [rq]))))"

text \<open>The formats searched for the itag: the muxed streams, then the adaptive ones.\<close>

definition allFormats :: "videoInfo \<Rightarrow> format list" where
  "allFormats vi =
     (case vi_formatStreams vi of None \<Rightarrow> [] | Some fs \<Rightarrow> fs)
     @ (case vi_adaptiveFormats vi of None \<Rightarrow> [] | Some fs \<Rightarrow> fs)"

definition GET :: "network \<Rightarrow> proxyRequest \<Rightarrow> proxy_response \<times> fetchRequest list" where
  "GET net request =
     (if \<not> nonEmpty (pq_v request) then (JsonError 400 (u16 ''Missing video ID''), [])
      else
        (let videoId = (case pq_v request of None \<Rightarrow> [] | Some v \<Rightarrow> v);
             type = (if nonEmpty (pq_type request) then tmpl (pq_type request) else u16 ''info'')
         in if \<not> re_test videoIdPattern videoId
            then (JsonError 400 (u16 ''Invalid video ID format''), [])
            else
              (case getWorkingInstance net [] of
                 (None, trace) \<Rightarrow> (JsonError 503 (u16 ''No available proxy instance''), trace)
               | (Some instance, trace) \<Rightarrow>
                   if type = u16 ''info'' then
                     (case getVideoInfo net trace videoId instance of
                        (None, trace') \<Rightarrow> (proxyFailed, trace')
                      | (Some vi, trace') \<Rightarrow>
                          (InfoResponse (buildInfo (pq_origin request) videoId instance vi), trace'))
                   else if \<not> nonEmpty (pq_itag request)
                   then (JsonError 400 (u16 ''Missing itag parameter''), trace)
                   else
                     (case getVideoInfo net trace videoId instance of
                        (None, trace') \<Rightarrow> (proxyFailed, trace')
                      | (Some vi, trace') \<Rightarrow>
                          (case find (\<lambda>f. f_itag f = pq_itag request) (allFormats vi) of
                             None \<Rightarrow> (JsonError 404 (u16 ''Stream not found''), trace')
                           | Some fmt \<Rightarrow>
                               (case f_url fmt of
                                  None \<Rightarrow> (JsonError 404 (u16 ''Stream not found''), trace')
                                | Some url \<Rightarrow>
                                    if url = []
                                    then (JsonError 404 (u16 ''Stream not found''), trace')
                                    else proxyStream net trace' (pq_range request) fmt url))))))"

section \<open>Notions used in the statements\<close>

text \<open>
  A candidate is alive, after the requests of \<open>trace\<close>, when its liveness probe is
  answered with a 2xx status. \<open>probes k\<close> are the probes of the first \<open>k\<close> candidates.
\<close>

definition alive :: "network \<Rightarrow> fetchRequest list \<Rightarrow> jsstr \<Rightarrow> bool" where
  "alive net trace instance =
     (case net trace (probeRequest instance) of
        Response response \<Rightarrow> response_ok response
      | Rejected \<Rightarrow> False)"

definition probes :: "nat \<Rightarrow> fetchRequest list" where
  "probes k = map probeRequest (take k INVIDIOUS_INSTANCES)"

definition validVideoId :: "jsstr \<Rightarrow> bool" where
  "validVideoId v = (length v = 11 \<and> list_all isIdChar v)"


text \<open>
  The classes of models and their documented bounds, as the claim lists them: the lower
  bound of each class and its upper bound, if it has one. \<open>clampInto\<close> is the requested
  value clamped into such bounds.
\<close>

datatype model_class = Gpt5Class | O3O4Class | OtherReasoning | StandardGpt4 | Standard

definition modelClass :: "jsstr \<Rightarrow> model_class" where
  "modelClass m =
     (if includes_str m (u16 ''gpt-5'') then Gpt5Class
      else if startsWith m (u16 ''o3'') \<or> startsWith m (u16 ''o4'') then O3O4Class
      else if startsWith m (u16 ''o1'') then OtherReasoning
      else if includes_str m (u16 ''gpt-4'') then StandardGpt4
      else Standard)"

fun classMin :: "model_class \<Rightarrow> rat" where
  "classMin Gpt5Class = 2000"
| "classMin O3O4Class = 1500"
| "classMin OtherReasoning = 1000"
| "classMin StandardGpt4 = 500"
| "classMin Standard = 500"

fun classMax :: "model_class \<Rightarrow> rat option" where
  "classMax Gpt5Class = Some 128000"
| "classMax O3O4Class = Some 100000"
| "classMax OtherReasoning = None"
| "classMax StandardGpt4 = Some 32768"
| "classMax Standard = None"

definition clampInto :: "rat \<Rightarrow> rat option \<Rightarrow> rat \<Rightarrow> rat" where
  "clampInto lo hi r =
     (if r < lo then lo else (case hi of None \<Rightarrow> r | Some h \<Rightarrow> if h < r then h else r))"

section \<open>Example inputs\<close>

definition okResponse :: upstreamResponse where
  "okResponse = \<lparr>up_status = 200, up_header = (\<lambda>name. None), up_info = None,
                  up_body = Some []\<rparr>"

definition deadNet :: network where
  "deadNet trace rq = Rejected"

definition thirdAliveNet :: network where
  "thirdAliveNet trace rq =
     (if fq_url rq = u16 ''https://invidious.jing.rocks/api/v1/stats'' then Response okResponse
      else Rejected)"

definition infoRequest :: proxyRequest where
  "infoRequest = \<lparr>pq_v = Some (u16 ''dQw4w9WgXcQ''), pq_type = Some (u16 ''info''),
                   pq_itag = None, pq_range = None, pq_origin = u16 ''https://tv.example''\<rparr>"

definition exampleConfig :: aiConfig where
  "exampleConfig = \<lparr>cfg_model = u16 ''deepseek-chat'', cfg_maxTokens = Finite 3000,
                     cfg_temperature = Finite (7 / 10), cfg_streamMode = None\<rparr>"

definition exampleRequest :: "string \<Rightarrow> jsnum \<Rightarrow> chatRequest" where
  "exampleRequest m n =
     \<lparr>rq_messages = [\<lparr>cm_role = User, cm_content = u16 ''hi''\<rparr>], rq_model = Some (u16 m),
      rq_temperature = None, rq_max_tokens = Some n, rq_max_completion_tokens = None,
      rq_streamMode = None\<rparr>"

definition exampleDecode :: "unit \<Rightarrow> nat \<Rightarrow> unit \<times> jsstr" where
  "exampleDecode d b = (d, [b])"

definition deltaOf :: "json \<Rightarrow> json" where
  "deltaOf c = JObj [(u16 ''choices'', JArr [JObj [(u16 ''delta'', JObj [(u16 ''content'', c)])]])]"

definition exampleParse :: "jsstr \<Rightarrow> json option" where
  "exampleParse s =
     (if s = u16 ''{\"choices\":[{\"delta\":{\"content\":\"\"}}]}'' then Some (deltaOf (JStr []))
      else if s = u16 ''{\"choices\":[{\"delta\":{\"content\":\"Hi\"}}]}''
        then Some (deltaOf (JStr (u16 ''Hi'')))
      else if s = u16 ''{\"choices\":[{\"delta\":{}}]}''
        then Some (JObj [(u16 ''choices'', JArr [JObj [(u16 ''delta'', JObj [])]])])
      else None)"

definition exampleToString :: "json \<Rightarrow> jsstr" where
  "exampleToString v = u16 ''[object Object]''"

definition examplePlatform :: "(unit, nat) platform" where
  "examplePlatform =
     \<lparr>pf_decode = exampleDecode, pf_parse = exampleParse, pf_toString = exampleToString\<rparr>"

definition exampleState :: "unit tstate" where
  "exampleState = \<lparr>ts_decoder = (), ts_buffer = [], ts_fullContent = u16 ''So far'',
                    ts_out = [ContentDelta (JStr (u16 ''So far''))]\<rparr>"

definition exampleLink :: videoLink where
  "exampleLink = \<lparr>vl_originalUrl = u16 ''https://youtu.be/dQw4w9WgXcQ'',
                   vl_videoId = u16 ''dQw4w9WgXcQ'',
                   vl_fullMatch = u16 ''https://youtu.be/dQw4w9WgXcQ''\<rparr>"

definition otherLink :: videoLink where
  "otherLink = \<lparr>vl_originalUrl = u16 ''youtube.com/v/abc'', vl_videoId = u16 ''abc'',
                 vl_fullMatch = u16 ''youtube.com/v/abc''\<rparr>"

definition non2xxNet :: oembed_net where
  "non2xxNet k url = FetchResponse False None"

definition firstFailsNet :: oembed_net where
  "firstFailsNet k url =
     (if k = 0 then FetchRejected
      else FetchResponse True (Some (JObj [(u16 ''title'', JStr (u16 ''A song''))])))"









text \<open>A message with text around the link, and one where the id runs on.\<close>

definition longMessage :: jsstr where
  "longMessage = u16 ''see https://youtu.be/dQw4w9WgXcQ now''"

definition runOnMessage :: jsstr where
  "runOnMessage = u16 ''https://youtu.be/dQw4w9WgXcQ-live''"

definition deadSearch :: search_net where
  "deadSearch k keyword = SearchRejected"

definition plainEnv :: relayEnv where
  "plainEnv = \<lparr>env_videoLinks = [], env_youtubeConfig = None, env_oembed = non2xxNet,
                env_search = deadSearch\<rparr>"

definition linkEnv :: relayEnv where
  "linkEnv = \<lparr>env_videoLinks = [exampleLink], env_youtubeConfig = None, env_oembed = non2xxNet,
               env_search = deadSearch\<rparr>"

text \<open>A reply of one recommendation line: U+300A \<open>A\<close> U+300B \<open> (2020) [x] - good\<close>.\<close>

definition movieReply :: jsstr where
  "movieReply = [12298, 65, 12299] @ u16 '' (2020) [x] - good''"

definition movieRecommendation :: recommendation where
  "movieRecommendation = \<lparr>rc_title = u16 ''A'', rc_year = u16 ''2020'', rc_genre = u16 ''x'',
                           rc_description = u16 ''good''\<rparr>"

text \<open>An upstream stream of one complete data line, as bytes.\<close>

definition exampleReads :: "nat read list" where
  "exampleReads =
     [ReadChunk (u16 ''data: {\"choices\":[{\"delta\":{\"content\":\"Hi\"}}]}'' @ [10])]"



text \<open>The same line delivered in two chunks, cut inside the JSON payload.\<close>

definition splitChunks :: "nat list list" where
  "splitChunks =
     [u16 ''data: {\"choices\":[{\"del'', u16 ''ta\":{\"content\":\"Hi\"}}]}'' @ [10]]"

section \<open>Token limits per model class\<close>

lemmas token_defs = GPT5_MIN_def GPT5_MAX_def O3_O4_MIN_def O3_O4_MAX_def REASONING_MIN_def
  NORMAL_MIN_def GPT4_MAX_def

lemmas str_defs = u16_def startsWith_def isReasoningModel_def REASONING_MODEL_PREFIXES_def

lemma isReasoningModel_iff:
  "isReasoningModel m \<longleftrightarrow>
     startsWith m (u16 ''o1'') \<or> startsWith m (u16 ''o3'') \<or> startsWith m (u16 ''o4'')
     \<or> includes_str m (u16 ''gpt-5'')"
  by (auto simp: isReasoningModel_def REASONING_MODEL_PREFIXES_def)

lemma clampTokenLimit_Finite:
  "clampTokenLimit m (Finite r)
     = Finite (clampInto (classMin (modelClass m)) (classMax (modelClass m)) r)"
  by (simp add: clampTokenLimit_def modelClass_def clampInto_def isReasoningModel_iff token_defs
      Let_def max_def min_def)

lemma clampTokenLimit_PosInfinity:
  "transmitted (clampTokenLimit m PosInfinity) = classMax (modelClass m)"
  by (simp add: clampTokenLimit_def modelClass_def isReasoningModel_iff token_defs Let_def
      transmitted_def)

lemma clampTokenLimit_NegInfinity:
  "clampTokenLimit m NegInfinity = Finite (classMin (modelClass m))"
  by (simp add: clampTokenLimit_def modelClass_def isReasoningModel_iff token_defs Let_def)

lemma clampTokenLimit_NaN: "clampTokenLimit m NaN = NaN"
  by (simp add: clampTokenLimit_def token_defs Let_def)

lemma clampInto_bounds:
  "classMin c \<le> clampInto (classMin c) (classMax c) r
   \<and> (\<forall>h. classMax c = Some h \<longrightarrow> clampInto (classMin c) (classMax c) r \<le> h)"
  by (cases c) (auto simp: clampInto_def)

lemma clampInto_inside:
  "lo \<le> r \<Longrightarrow> (\<forall>h. hi = Some h \<longrightarrow> r \<le> h) \<Longrightarrow> clampInto lo hi r = r"
  by (auto simp: clampInto_def split: option.splits)

text \<open>
  Claim C3, amended. The requested limit is the first of \<open>max_tokens\<close>,
  \<open>max_completion_tokens\<close> and the configured limit that is a number other than zero and
  NaN (the configured one if neither is). For every model name and every finite requested
  limit, the limit sent upstream is the requested limit clamped into the bounds of the
  model's class: unchanged when it lies within them, the nearest bound otherwise. The
  bounds are [2000, 128000] for a name that contains \<open>gpt-5\<close>; [1500, 100000] for another
  name that starts with \<open>o3\<close> or \<open>o4\<close>; at least 1000 for any other reasoning model; at
  least 500 for a standard model and at most 32768 when its name contains \<open>gpt-4\<close>. A
  requested limit of plus infinity is sent as the upper bound of a class that has one and
  as \<open>null\<close> in the two classes that have none; minus infinity is sent as the lower
  bound, NaN as \<open>null\<close>. A reasoning model carries the limit in \<open>max_completion_tokens\<close>
  and no temperature; a standard model carries it in \<open>max_tokens\<close>, with the temperature
  of the request or else the configured one.
\<close>

theorem token_limit_is_clamped_per_class:
  "let model = requestModel cfg rq;
       requested = requestedTokenLimit cfg rq;
       body = buildRequestBody cfg rq systemPrompt;
       cls = modelClass model;
       t = clampTokenLimit model requested
   in (if isReasoningModel model
       then cls \<in> {Gpt5Class, O3O4Class, OtherReasoning}
            \<and> rb_max_completion_tokens body = Some t \<and> rb_max_tokens body = None
            \<and> rb_temperature body = None
       else cls \<in> {StandardGpt4, Standard}
            \<and> rb_max_tokens body = Some t \<and> rb_max_completion_tokens body = None
            \<and> rb_temperature body
                = Some (case rq_temperature rq of Some x \<Rightarrow> x | None \<Rightarrow> cfg_temperature cfg))
      \<and> (\<forall>r. requested = Finite r \<longrightarrow>
             transmitted t = Some (clampInto (classMin cls) (classMax cls) r)
             \<and> classMin cls \<le> clampInto (classMin cls) (classMax cls) r
             \<and> (\<forall>h. classMax cls = Some h \<longrightarrow> clampInto (classMin cls) (classMax cls) r \<le> h)
             \<and> (classMin cls \<le> r \<and> (\<forall>h. classMax cls = Some h \<longrightarrow> r \<le> h)
                  \<longrightarrow> transmitted t = Some r))
      \<and> (requested = PosInfinity \<longrightarrow> transmitted t = classMax cls)
      \<and> (requested = NegInfinity \<longrightarrow> transmitted t = Some (classMin cls))
      \<and> (requested = NaN \<longrightarrow> transmitted t = None)
      \<and> (\<forall>a. rq_max_tokens rq = Some a \<and> truthyNumber a \<longrightarrow> requested = a)
      \<and> (\<forall>a. (\<forall>b. rq_max_tokens rq = Some b \<longrightarrow> \<not> truthyNumber b)
               \<and> rq_max_completion_tokens rq = Some a \<and> truthyNumber a \<longrightarrow> requested = a)
      \<and> ((\<forall>b. rq_max_tokens rq = Some b \<longrightarrow> \<not> truthyNumber b)
           \<and> (\<forall>b. rq_max_completion_tokens rq = Some b \<longrightarrow> \<not> truthyNumber b)
          \<longrightarrow> requested = cfg_maxTokens cfg)"
proof -
  let ?model = "requestModel cfg rq"
  let ?requested = "requestedTokenLimit cfg rq"
  let ?body = "buildRequestBody cfg rq systemPrompt"
  let ?cls = "modelClass ?model"
  let ?t = "clampTokenLimit ?model ?requested"
  have fields: "if isReasoningModel ?model
       then ?cls \<in> {Gpt5Class, O3O4Class, OtherReasoning}
            \<and> rb_max_completion_tokens ?body = Some ?t \<and> rb_max_tokens ?body = None
            \<and> rb_temperature ?body = None
       else ?cls \<in> {StandardGpt4, Standard}
            \<and> rb_max_tokens ?body = Some ?t \<and> rb_max_completion_tokens ?body = None
            \<and> rb_temperature ?body
                = Some (case rq_temperature rq of Some x \<Rightarrow> x | None \<Rightarrow> cfg_temperature cfg)"
    by (auto simp: buildRequestBody_def Let_def modelClass_def isReasoningModel_iff)
  have fin: "\<forall>r. ?requested = Finite r \<longrightarrow>
             transmitted ?t = Some (clampInto (classMin ?cls) (classMax ?cls) r)
             \<and> classMin ?cls \<le> clampInto (classMin ?cls) (classMax ?cls) r
             \<and> (\<forall>h. classMax ?cls = Some h \<longrightarrow> clampInto (classMin ?cls) (classMax ?cls) r \<le> h)
             \<and> (classMin ?cls \<le> r \<and> (\<forall>h. classMax ?cls = Some h \<longrightarrow> r \<le> h)
                  \<longrightarrow> transmitted ?t = Some r)"
  proof (intro allI impI)
    fix r assume r: "?requested = Finite r"
    have t: "transmitted ?t = Some (clampInto (classMin ?cls) (classMax ?cls) r)"
      by (simp add: r clampTokenLimit_Finite transmitted_def)
    moreover have "classMin ?cls \<le> r \<and> (\<forall>h. classMax ?cls = Some h \<longrightarrow> r \<le> h)
                  \<longrightarrow> transmitted ?t = Some r"
      using clampInto_inside[of "classMin ?cls" r "classMax ?cls"] t by simp
    ultimately show "transmitted ?t = Some (clampInto (classMin ?cls) (classMax ?cls) r)
             \<and> classMin ?cls \<le> clampInto (classMin ?cls) (classMax ?cls) r
             \<and> (\<forall>h. classMax ?cls = Some h \<longrightarrow> clampInto (classMin ?cls) (classMax ?cls) r \<le> h)
             \<and> (classMin ?cls \<le> r \<and> (\<forall>h. classMax ?cls = Some h \<longrightarrow> r \<le> h)
                  \<longrightarrow> transmitted ?t = Some r)"
      using clampInto_bounds[of ?cls r] by blast
  qed
  have inf: "(?requested = PosInfinity \<longrightarrow> transmitted ?t = classMax ?cls)
      \<and> (?requested = NegInfinity \<longrightarrow> transmitted ?t = Some (classMin ?cls))
      \<and> (?requested = NaN \<longrightarrow> transmitted ?t = None)"
    using clampTokenLimit_PosInfinity[of ?model] clampTokenLimit_NegInfinity[of ?model]
      clampTokenLimit_NaN[of ?model]
    by (auto simp: transmitted_def)
  have req: "(\<forall>a. rq_max_tokens rq = Some a \<and> truthyNumber a \<longrightarrow> ?requested = a)
      \<and> (\<forall>a. (\<forall>b. rq_max_tokens rq = Some b \<longrightarrow> \<not> truthyNumber b)
               \<and> rq_max_completion_tokens rq = Some a \<and> truthyNumber a \<longrightarrow> ?requested = a)
      \<and> ((\<forall>b. rq_max_tokens rq = Some b \<longrightarrow> \<not> truthyNumber b)
           \<and> (\<forall>b. rq_max_completion_tokens rq = Some b \<longrightarrow> \<not> truthyNumber b)
          \<longrightarrow> ?requested = cfg_maxTokens cfg)"
    by (auto simp: requestedTokenLimit_def or_num_def split: option.splits)
  from fields fin inf req show ?thesis
    unfolding Let_def by (intro conjI) blast+
qed

lemmas example_request_defs = requestModel_def requestedTokenLimit_def or_str_def or_num_def
  exampleConfig_def exampleRequest_def truthyNumber_def

lemma example_classes:
  "modelClass (u16 ''gpt-5-mini'') = Gpt5Class" "modelClass (u16 ''o3-mini'') = O3O4Class"
  "modelClass (u16 ''o1-preview'') = OtherReasoning" "modelClass (u16 ''gpt-4o'') = StandardGpt4"
  "modelClass (u16 ''deepseek-chat'') = Standard"
  by (simp_all add: modelClass_def u16_def startsWith_def)

lemma example_reasoning:
  "isReasoningModel (u16 ''gpt-5-mini'')" "\<not> isReasoningModel (u16 ''gpt-4o'')"
  by (simp_all add: isReasoningModel_iff u16_def startsWith_def)

theorem token_limit_is_clamped_per_class_witness:
  "requestedTokenLimit exampleConfig (exampleRequest ''gpt-5-mini'' (Finite 100)) = Finite 100
   \<and> rb_max_completion_tokens
         (buildRequestBody exampleConfig (exampleRequest ''gpt-5-mini'' (Finite 100)) [])
       = Some (Finite 2000)
   \<and> transmitted (clampTokenLimit (u16 ''o3-mini'') (Finite 200000)) = Some 100000
   \<and> transmitted (clampTokenLimit (u16 ''o1-preview'') (Finite 4096)) = Some 4096
   \<and> transmitted (clampTokenLimit (u16 ''gpt-4o'') PosInfinity) = Some 32768
   \<and> transmitted (clampTokenLimit (u16 ''deepseek-chat'') NegInfinity) = Some 500
   \<and> transmitted (clampTokenLimit (u16 ''deepseek-chat'') NaN) = None
   \<and> requestedTokenLimit exampleConfig (exampleRequest ''gpt-4o'' (Finite 0)) = Finite 3000
   \<and> rb_max_tokens (buildRequestBody exampleConfig (exampleRequest ''gpt-4o'' (Finite 0)) [])
       = Some (Finite 3000)
   \<and> rb_temperature (buildRequestBody exampleConfig (exampleRequest ''gpt-4o'' (Finite 0)) [])
       \<noteq> None"
proof -
  have m: "requestModel exampleConfig (exampleRequest n x) = u16 n" if "n \<noteq> []" for n x
    using that by (simp add: example_request_defs u16_def)
  have q1: "requestedTokenLimit exampleConfig (exampleRequest n (Finite x)) = Finite x"
    if "x \<noteq> 0" for n x
    using that by (simp add: example_request_defs)
  have q2: "requestedTokenLimit exampleConfig (exampleRequest n x) = x"
    if "x = PosInfinity \<or> x = NegInfinity" for n x
    using that by (auto simp: example_request_defs)
  have q3: "requestedTokenLimit exampleConfig (exampleRequest n NaN) = Finite 3000" for n
    by (simp add: example_request_defs)
  have q4: "requestedTokenLimit exampleConfig (exampleRequest n (Finite 0)) = Finite 3000" for n
    by (simp add: example_request_defs)
  note t1 = token_limit_is_clamped_per_class[of exampleConfig
              "exampleRequest ''gpt-5-mini'' (Finite 100)" "[]"]
  note t2 = token_limit_is_clamped_per_class[of exampleConfig
              "exampleRequest ''o3-mini'' (Finite 200000)" "[]"]
  note t3 = token_limit_is_clamped_per_class[of exampleConfig
              "exampleRequest ''o1-preview'' (Finite 4096)" "[]"]
  note t4 = token_limit_is_clamped_per_class[of exampleConfig
              "exampleRequest ''gpt-4o'' PosInfinity" "[]"]
  note t5 = token_limit_is_clamped_per_class[of exampleConfig
              "exampleRequest ''deepseek-chat'' NegInfinity" "[]"]
  note t6 = token_limit_is_clamped_per_class[of exampleConfig
              "exampleRequest ''gpt-4o'' (Finite 0)" "[]"]
  have a: "requestedTokenLimit exampleConfig (exampleRequest ''gpt-5-mini'' (Finite 100)) = Finite 100"
    using t1 by (simp add: Let_def exampleRequest_def truthyNumber_def)
  have b: "rb_max_completion_tokens
         (buildRequestBody exampleConfig (exampleRequest ''gpt-5-mini'' (Finite 100)) [])
       = Some (Finite 2000)"
    using t1 by (simp add: Let_def m q1 example_classes example_reasoning
        clampTokenLimit_Finite clampInto_def)
  have c: "transmitted (clampTokenLimit (u16 ''o3-mini'') (Finite 200000)) = Some 100000"
    using t2 by (simp add: Let_def m q1 example_classes clampInto_def)
  have d: "transmitted (clampTokenLimit (u16 ''o1-preview'') (Finite 4096)) = Some 4096"
    using t3 by (simp add: Let_def m q1 example_classes clampInto_def)
  have e: "transmitted (clampTokenLimit (u16 ''gpt-4o'') PosInfinity) = Some 32768"
    using t4 by (simp add: Let_def m q2 example_classes)
  have f: "transmitted (clampTokenLimit (u16 ''deepseek-chat'') NegInfinity) = Some 500"
    using t5 by (simp add: Let_def m q2 example_classes)
  have g: "transmitted (clampTokenLimit (u16 ''deepseek-chat'') NaN) = None"
    by (simp add: clampTokenLimit_NaN transmitted_def)
  have h: "requestedTokenLimit exampleConfig (exampleRequest ''gpt-4o'' (Finite 0)) = Finite 3000"
    using t6 by (simp add: Let_def exampleRequest_def exampleConfig_def truthyNumber_def)
  have i: "rb_max_tokens (buildRequestBody exampleConfig (exampleRequest ''gpt-4o'' (Finite 0)) [])
       = Some (Finite 3000)
    \<and> rb_temperature (buildRequestBody exampleConfig (exampleRequest ''gpt-4o'' (Finite 0)) [])
       \<noteq> None"
    using t6 by (simp add: Let_def m q4 example_classes example_reasoning
        clampTokenLimit_Finite clampInto_def)
  from a b c d e f g h i show ?thesis by simp
qed

text \<open>
  The claim as stated fails for a requested limit of plus infinity, which \<open>JSON.parse\<close>
  yields for \<open>1e999\<close>: in the classes without an upper bound it passes \<open>Math.max\<close>
  unchanged and is sent as \<open>null\<close>, which is no limit of at least 1000 or 500.
\<close>

theorem infinite_limit_is_sent_as_null:
  "requestedTokenLimit exampleConfig (exampleRequest ''o1-preview'' PosInfinity) = PosInfinity
   \<and> rb_max_completion_tokens
         (buildRequestBody exampleConfig (exampleRequest ''o1-preview'' PosInfinity) [])
       = Some PosInfinity
   \<and> rb_max_tokens
         (buildRequestBody exampleConfig (exampleRequest ''deepseek-chat'' PosInfinity) [])
       = Some PosInfinity
   \<and> transmitted PosInfinity = None"
  by (simp add: buildRequestBody_def clampTokenLimit_def Let_def token_defs str_defs
      example_request_defs transmitted_def)

section \<open>Facts about the matcher\<close>

lemma Rep_numeral: "Rep (numeral k) r = Seq r (Rep (pred_numeral k) r)"
  by (simp add: numeral_eq_Suc)

lemma ms_Rep_Cls:
  "ms inp (Rep n (Cls P)) st =
     (if n \<le> length (fst st) \<and> list_all P (take n (fst st)) then [(drop n (fst st), snd st)]
      else [])"
proof (induction n arbitrary: st)
  case 0
  then show ?case by simp
next
  case (Suc n)
  show ?case
  proof (cases "fst st")
    case Nil
    then show ?thesis by simp
  next
    case (Cons x xs)
    then show ?thesis by (simp add: Suc)
  qed
qed

lemma search_from_Bol_later:
  "length s < length inp \<Longrightarrow> search_from inp (Seq Bol r) s = None"
  by (induction s) (simp_all add: match_at_def)

lemma re_test_videoIdPattern: "re_test videoIdPattern v = validVideoId v"
proof (cases v)
  case Nil
  then show ?thesis
    by (simp add: re_test_def re_match_def videoIdPattern_def match_at_def ms_Rep_Cls
        validVideoId_def)
next
  case (Cons x xs)
  have later: "search_from (x # xs) (Seq Bol (Seq (Rep 11 (Cls isIdChar)) Eol)) xs = None"
    by (rule search_from_Bol_later) simp
  show ?thesis
    unfolding re_test_def re_match_def videoIdPattern_def Cons
    using later
    by (auto simp: match_at_def ms_Rep_Cls validVideoId_def split: list.splits)
qed

section \<open>Mirror discovery\<close>

lemma probe_loop_first_alive:
  "k < length insts \<Longrightarrow>
   \<forall>j<k. \<not> alive net (trace @ map probeRequest (take j insts)) (insts ! j) \<Longrightarrow>
   alive net (trace @ map probeRequest (take k insts)) (insts ! k) \<Longrightarrow>
   probe_loop net trace insts = (Some (insts ! k), trace @ map probeRequest (take (Suc k) insts))"
proof (induction insts arbitrary: trace k)
  case Nil
  then show ?case by simp
next
  case (Cons a insts)
  show ?case
  proof (cases k)
    case 0
    with Cons.prems show ?thesis
      by (auto simp: alive_def Let_def split: fetch_outcome.splits)
  next
    case (Suc k')
    from Cons.prems(2) Suc have dead: "\<not> alive net trace a" by force
    have "\<forall>j<k'. \<not> alive net ((trace @ [probeRequest a]) @ map probeRequest (take j insts)) (insts ! j)"
    proof (intro allI impI)
      fix j assume "j < k'"
      then have "Suc j < k" using Suc by simp
      with Cons.prems(2) show "\<not> alive net ((trace @ [probeRequest a]) @ map probeRequest (take j insts)) (insts ! j)"
        by force
    qed
    moreover have "alive net ((trace @ [probeRequest a]) @ map probeRequest (take k' insts)) (insts ! k')"
      using Cons.prems(3) Suc by simp
    moreover have "k' < length insts" using Cons.prems(1) Suc by simp
    ultimately have "probe_loop net (trace @ [probeRequest a]) insts =
        (Some (insts ! k'), (trace @ [probeRequest a]) @ map probeRequest (take (Suc k') insts))"
      by (rule Cons.IH[rotated 1])
    with dead Suc show ?thesis
      by (auto simp: alive_def Let_def split: fetch_outcome.splits)
  qed
qed

lemma probe_loop_all_dead:
  "\<forall>j<length insts. \<not> alive net (trace @ map probeRequest (take j insts)) (insts ! j) \<Longrightarrow>
   probe_loop net trace insts = (None, trace @ map probeRequest insts)"
proof (induction insts arbitrary: trace)
  case Nil
  then show ?case by simp
next
  case (Cons a insts)
  from Cons.prems have dead: "\<not> alive net trace a" by force
  have "\<forall>j<length insts. \<not> alive net ((trace @ [probeRequest a]) @ map probeRequest (take j insts)) (insts ! j)"
  proof (intro allI impI)
    fix j assume "j < length insts"
    then have "Suc j < length (a # insts)" by simp
    with Cons.prems show "\<not> alive net ((trace @ [probeRequest a]) @ map probeRequest (take j insts)) (insts ! j)"
      by force
  qed
  from Cons.IH[OF this] dead show ?case
    by (auto simp: alive_def Let_def split: fetch_outcome.splits)
qed

text \<open>
  Claim C8. Mirror discovery probes the candidates in list order and returns the first
  one whose liveness probe succeeds: when the first \<open>k\<close> candidates fail and the next one
  answers, that one is returned and the requests made are exactly the probes of the first
  \<open>k + 1\<close> candidates, so none after it is probed. When every candidate fails, discovery
  returns nothing, and a proxy request with a well-formed id is answered 503 having made
  the liveness probes and no other request.
\<close>

theorem mirror_discovery_first_alive:
  "(k < length INVIDIOUS_INSTANCES
      \<and> (\<forall>j<k. \<not> alive net (probes j) (INVIDIOUS_INSTANCES ! j))
      \<and> alive net (probes k) (INVIDIOUS_INSTANCES ! k)
    \<longrightarrow> getWorkingInstance net [] = (Some (INVIDIOUS_INSTANCES ! k), probes (Suc k)))
   \<and> ((\<forall>j<length INVIDIOUS_INSTANCES. \<not> alive net (probes j) (INVIDIOUS_INSTANCES ! j))
    \<longrightarrow> getWorkingInstance net [] = (None, probes (length INVIDIOUS_INSTANCES))
        \<and> (\<forall>request v. pq_v request = Some v \<and> validVideoId v
             \<longrightarrow> GET net request
                 = (JsonError 503 (u16 ''No available proxy instance''),
                    probes (length INVIDIOUS_INSTANCES))))"
proof (intro conjI impI allI)
  assume "k < length INVIDIOUS_INSTANCES
      \<and> (\<forall>j<k. \<not> alive net (probes j) (INVIDIOUS_INSTANCES ! j))
      \<and> alive net (probes k) (INVIDIOUS_INSTANCES ! k)"
  then show "getWorkingInstance net [] = (Some (INVIDIOUS_INSTANCES ! k), probes (Suc k))"
    using probe_loop_first_alive[of k INVIDIOUS_INSTANCES net "[]"]
    by (simp add: getWorkingInstance_def probes_def)
next
  assume dead: "\<forall>j<length INVIDIOUS_INSTANCES. \<not> alive net (probes j) (INVIDIOUS_INSTANCES ! j)"
  then show none: "getWorkingInstance net [] = (None, probes (length INVIDIOUS_INSTANCES))"
    using probe_loop_all_dead[of INVIDIOUS_INSTANCES net "[]"]
    by (simp add: getWorkingInstance_def probes_def)
  fix request :: proxyRequest and v
  assume "pq_v request = Some v \<and> validVideoId v"
  then have "nonEmpty (pq_v request)" "re_test videoIdPattern v" "pq_v request = Some v"
    by (auto simp: nonEmpty_def re_test_videoIdPattern validVideoId_def)
  with none show "GET net request
                 = (JsonError 503 (u16 ''No available proxy instance''),
                    probes (length INVIDIOUS_INSTANCES))"
    by (simp add: GET_def Let_def)
qed

lemma length_INVIDIOUS_INSTANCES: "length INVIDIOUS_INSTANCES = 5"
  by (simp add: INVIDIOUS_INSTANCES_def)

lemma alive_deadNet: "\<not> alive deadNet trace i"
  by (simp add: alive_def deadNet_def)

lemma validVideoId_example: "validVideoId (u16 ''dQw4w9WgXcQ'')"
  by (simp add: validVideoId_def u16_def isIdChar_def)

theorem mirror_discovery_first_alive_witness:
  "getWorkingInstance thirdAliveNet [] = (Some (u16 ''https://invidious.jing.rocks''), probes 3)
   \<and> GET deadNet infoRequest = (JsonError 503 (u16 ''No available proxy instance''), probes 5)
   \<and> length (probes 5) = 5"
proof -
  have a: "(2::nat) < length INVIDIOUS_INSTANCES
      \<and> (\<forall>j<2. \<not> alive thirdAliveNet (probes j) (INVIDIOUS_INSTANCES ! j))
      \<and> alive thirdAliveNet (probes 2) (INVIDIOUS_INSTANCES ! 2)"
    by (simp add: length_INVIDIOUS_INSTANCES alive_def thirdAliveNet_def probeRequest_def
        INVIDIOUS_INSTANCES_def okResponse_def response_ok_def u16_def less_Suc_eq numeral_2_eq_2)
  have b: "\<forall>j<length INVIDIOUS_INSTANCES. \<not> alive deadNet (probes j) (INVIDIOUS_INSTANCES ! j)"
    by (simp add: alive_deadNet)
  have c: "pq_v infoRequest = Some (u16 ''dQw4w9WgXcQ'') \<and> validVideoId (u16 ''dQw4w9WgXcQ'')"
    by (simp add: infoRequest_def validVideoId_example)
  have i2: "INVIDIOUS_INSTANCES ! 2 = u16 ''https://invidious.jing.rocks''"
    by (simp add: INVIDIOUS_INSTANCES_def)
  from mirror_discovery_first_alive[of 2 thirdAliveNet] a
  have "getWorkingInstance thirdAliveNet [] = (Some (INVIDIOUS_INSTANCES ! 2), probes (Suc 2))"
    by blast
  moreover from mirror_discovery_first_alive[of 0 deadNet] b c
  have "GET deadNet infoRequest = (JsonError 503 (u16 ''No available proxy instance''),
          probes (length INVIDIOUS_INSTANCES))"
    by blast
  ultimately show ?thesis
    by (simp add: i2 length_INVIDIOUS_INSTANCES probes_def numeral_3_eq_3)
qed

section \<open>Content deltas\<close>

text \<open>
  Claim C10. In streaming mode, a data line that parses and whose delta content is absent
  or the empty string leaves the transcoder state unchanged: no content event is emitted
  and the accumulated text stays as it is. A line changes the state only by appending a
  truthy content, which is never the empty string, to the accumulated text and forwarding
  it as one content event.
\<close>

theorem empty_delta_is_ignored:
  "(startsWith (trim line) (u16 ''data: '')
      \<and> pf_parse pf (drop 6 (trim line)) = Some parsed
      \<and> (deltaContent parsed = Returns None \<or> deltaContent parsed = Returns (Some (JStr [])))
    \<longrightarrow> processLine pf st line = st)
   \<and> (processLine pf st line = st
       \<or> (\<exists>c. truthy (Some c) \<and> c \<noteq> JStr []
              \<and> processLine pf st line
                  = st\<lparr>ts_fullContent := ts_fullContent st @ contentText pf c,
                       ts_out := ts_out st @ [ContentDelta c]\<rparr>))"
  by (auto simp: processLine_def Let_def split: option.splits js_result.splits)

lemmas example_platform_defs = examplePlatform_def exampleParse_def exampleToString_def
  exampleState_def deltaOf_def

theorem empty_delta_is_ignored_witness:
  "processLine examplePlatform exampleState
     (u16 ''data: {\"choices\":[{\"delta\":{\"content\":\"\"}}]}'') = exampleState
   \<and> processLine examplePlatform exampleState (u16 ''data: {\"choices\":[{\"delta\":{}}]}'')
       = exampleState
   \<and> processLine examplePlatform exampleState
       (u16 ''data: {\"choices\":[{\"delta\":{\"content\":\"Hi\"}}]}'')
       = exampleState\<lparr>ts_fullContent := u16 ''So farHi'',
                       ts_out := [ContentDelta (JStr (u16 ''So far'')),
                                  ContentDelta (JStr (u16 ''Hi''))]\<rparr>"
proof -
  let ?l1 = "u16 ''data: {\"choices\":[{\"delta\":{\"content\":\"\"}}]}''"
  let ?l2 = "u16 ''data: {\"choices\":[{\"delta\":{}}]}''"
  have t1: "trim ?l1 = ?l1" and t2: "trim ?l2 = ?l2"
    by (simp_all add: trim_def u16_def isSpace_def)
  have h1: "startsWith (trim ?l1) (u16 ''data: '')
      \<and> pf_parse examplePlatform (drop 6 (trim ?l1)) = Some (deltaOf (JStr []))
      \<and> (deltaContent (deltaOf (JStr [])) = Returns None
          \<or> deltaContent (deltaOf (JStr [])) = Returns (Some (JStr [])))"
    unfolding t1 by (simp add: example_platform_defs startsWith_def u16_def deltaContent_def)
  have h2: "startsWith (trim ?l2) (u16 ''data: '')
      \<and> pf_parse examplePlatform (drop 6 (trim ?l2))
          = Some (JObj [(u16 ''choices'', JArr [JObj [(u16 ''delta'', JObj [])]])])
      \<and> (deltaContent (JObj [(u16 ''choices'', JArr [JObj [(u16 ''delta'', JObj [])]])]) = Returns None
          \<or> deltaContent (JObj [(u16 ''choices'', JArr [JObj [(u16 ''delta'', JObj [])]])])
              = Returns (Some (JStr [])))"
    unfolding t2 by (simp add: example_platform_defs startsWith_def u16_def deltaContent_def)
  from empty_delta_is_ignored[of ?l1 examplePlatform "deltaOf (JStr [])" exampleState] h1
  have a: "processLine examplePlatform exampleState ?l1 = exampleState" by blast
  from empty_delta_is_ignored[of ?l2 examplePlatform _ exampleState] h2
  have b: "processLine examplePlatform exampleState ?l2 = exampleState" by blast
  have c: "processLine examplePlatform exampleState
       (u16 ''data: {\"choices\":[{\"delta\":{\"content\":\"Hi\"}}]}'')
       = exampleState\<lparr>ts_fullContent := u16 ''So farHi'',
                       ts_out := [ContentDelta (JStr (u16 ''So far'')),
                                  ContentDelta (JStr (u16 ''Hi''))]\<rparr>"
    by (simp add: processLine_def Let_def trim_def u16_def isSpace_def startsWith_def
        example_platform_defs deltaContent_def contentText_def)
  from a b c show ?thesis by simp
qed

section \<open>Video link parsing\<close>

lemma parse_loop_map:
  "parse_loop net k links acc =
     acc @ map (\<lambda>i. parseOneLink (net (k + i) (oembedUrl (vl_videoId (links ! i)))) (links ! i))
             [0..<length links]"
proof (induction links arbitrary: k acc)
  case Nil
  then show ?case by simp
next
  case (Cons l links)
  have "[0..<length (l # links)] = 0 # map Suc [0..<length links]"
    by (simp add: upt_conv_Cons map_Suc_upt del: upt_Suc)
  then show ?case
    by (simp add: Cons.IH comp_def del: upt_Suc)
qed

text \<open>
  Claim C6, amended. \<open>handleVideoLinkParsing\<close> returns one entry per input link, in
  order, each computed from that link's own lookup alone and keeping its id and URL. A
  lookup that fails by a network error (or whose body cannot be read) yields an entry with
  \<open>playable = false\<close> and the generic error marker; a lookup answered with a non-2xx
  status yields an entry with \<open>playable = true\<close>, the default title and channel, the
  thumbnail and the embed URL derived from the id, and no error marker.
\<close>

theorem link_failures_are_isolated:
  "length (handleVideoLinkParsing net links) = length links
   \<and> (\<forall>i<length links.
         handleVideoLinkParsing net links ! i
           = parseOneLink (net i (oembedUrl (vl_videoId (links ! i)))) (links ! i)
         \<and> vr_videoId (handleVideoLinkParsing net links ! i) = vl_videoId (links ! i)
         \<and> vr_originalUrl (handleVideoLinkParsing net links ! i) = vl_originalUrl (links ! i))
   \<and> (\<forall>link. \<not> vr_playable (parseOneLink FetchRejected link)
         \<and> vr_error (parseOneLink FetchRejected link) = Some errorMarker
         \<and> \<not> vr_playable (parseOneLink (FetchResponse True None) link)
         \<and> vr_error (parseOneLink (FetchResponse True None) link) = Some errorMarker)
   \<and> (\<forall>link body. vr_playable (parseOneLink (FetchResponse False body) link)
         \<and> vr_error (parseOneLink (FetchResponse False body) link) = None
         \<and> vr_title (parseOneLink (FetchResponse False body) link) = JStr defaultTitle
         \<and> vr_embedUrl (parseOneLink (FetchResponse False body) link)
             = Some (embedUrl (vl_videoId link))
         \<and> vr_channelName (parseOneLink (FetchResponse False body) link)
             = Some (JStr unknownChannel)
         \<and> vr_thumbnail (parseOneLink (FetchResponse False body) link)
             = Some (thumbnailUrl (vl_videoId link))
         \<and> parseOneLink (FetchResponse False body) link
             = \<lparr>vr_videoId = vl_videoId link, vr_originalUrl = vl_originalUrl link,
                vr_title = JStr defaultTitle, vr_channelName = Some (JStr unknownChannel),
                vr_thumbnail = Some (thumbnailUrl (vl_videoId link)), vr_playable = True,
                vr_embedUrl = Some (embedUrl (vl_videoId link)), vr_error = None\<rparr>)"
proof -
  have nth: "\<forall>i<length links. handleVideoLinkParsing net links ! i
           = parseOneLink (net i (oembedUrl (vl_videoId (links ! i)))) (links ! i)"
    by (simp add: handleVideoLinkParsing_def parse_loop_map)
  have ids: "vr_videoId (parseOneLink outcome link) = vl_videoId link
      \<and> vr_originalUrl (parseOneLink outcome link) = vl_originalUrl link" for outcome link
    by (simp add: parseOneLink_def split: oembed_outcome.splits bool.splits option.splits)
  show ?thesis
    using nth ids
    by (simp add: handleVideoLinkParsing_def parse_loop_map parseOneLink_def)
qed

theorem link_failures_are_isolated_witness:
  "length (handleVideoLinkParsing firstFailsNet [exampleLink, otherLink]) = 2
   \<and> map vr_playable (handleVideoLinkParsing firstFailsNet [exampleLink, otherLink]) = [False, True]
   \<and> map vr_videoId (handleVideoLinkParsing firstFailsNet [exampleLink, otherLink])
       = [u16 ''dQw4w9WgXcQ'', u16 ''abc'']
   \<and> map vr_title (handleVideoLinkParsing firstFailsNet [exampleLink, otherLink])
       = [JStr failedTitle, JStr (u16 ''A song'')]"
proof -
  let ?r = "handleVideoLinkParsing firstFailsNet [exampleLink, otherLink]"
  from link_failures_are_isolated[of firstFailsNet "[exampleLink, otherLink]"]
  have len: "length ?r = 2"
    and r0: "?r ! 0 = parseOneLink (firstFailsNet 0 (oembedUrl (vl_videoId exampleLink))) exampleLink"
    and r1: "?r ! 1 = parseOneLink (firstFailsNet 1 (oembedUrl (vl_videoId otherLink))) otherLink"
    by (simp_all add: less_Suc_eq numeral_2_eq_2)
  from len obtain a b where ab: "?r = [a, b]"
    by (auto simp: length_Suc_conv numeral_2_eq_2)
  from r0 r1 show ?thesis
    unfolding ab
    by (simp add: firstFailsNet_def parseOneLink_def exampleLink_def otherLink_def or_json_def u16_def)
qed

text \<open>
  The claim as stated fails for a non-2xx answer: the entry is playable and carries no
  error marker.
\<close>

theorem non2xx_link_is_playable:
  "handleVideoLinkParsing non2xxNet [exampleLink]
     = [\<lparr>vr_videoId = u16 ''dQw4w9WgXcQ'', vr_originalUrl = u16 ''https://youtu.be/dQw4w9WgXcQ'',
         vr_title = JStr defaultTitle, vr_channelName = Some (JStr unknownChannel),
         vr_thumbnail = Some (thumbnailUrl (u16 ''dQw4w9WgXcQ'')), vr_playable = True,
         vr_embedUrl = Some (embedUrl (u16 ''dQw4w9WgXcQ'')), vr_error = None\<rparr>]"
  by (simp add: handleVideoLinkParsing_def non2xxNet_def parseOneLink_def exampleLink_def)

section \<open>Stream mode of the proxy\<close>

















section \<open>Facts about the matcher: membership and loops\<close>

declare ms.simps(5) [simp del]

lemma ms_Star_mem:
  "st' \<in> set (ms inp (Star a) st) \<longleftrightarrow>
     st' = st \<or> (\<exists>mid \<in> set (ms inp a st). length (fst mid) < length (fst st)
                    \<and> st' \<in> set (ms inp (Star a) mid))"
  by (subst ms.simps(5)) (auto split: if_splits)

lemma ms_Star_Cls_Nil [simp]: "ms inp (Star (Cls P)) ([], c) = [([], c)]"
  by (subst ms.simps(5)) simp

lemma ms_Star_Cls_Cons [simp]:
  "ms inp (Star (Cls P)) (x # xs, c) =
     (if P x then ms inp (Star (Cls P)) (xs, c) @ [(x # xs, c)] else [(x # xs, c)])"
  by (subst ms.simps(5)) simp

lemma ms_ClsD:
  "st' \<in> set (ms inp (Cls P) st) \<Longrightarrow> \<exists>x. fst st = x # fst st' \<and> P x \<and> snd st' = snd st"
  by (cases "fst st") (auto split: if_splits)

lemma ms_length_le:
  "st' \<in> set (ms inp r st) \<Longrightarrow> length (fst st') \<le> length (fst st)"
proof (induction inp r st arbitrary: st' rule: ms.induct)
  case (1 inp l st)
  then show ?case by (simp split: if_splits)
next
  case (2 inp P st)
  from ms_ClsD[OF "2.prems"] show ?case by auto
next
  case (3 inp a b st)
  from "3.prems" obtain mid where mid: "mid \<in> set (ms inp a st)" "st' \<in> set (ms inp b mid)"
    by auto
  from "3.IH"(1)[OF mid(1)] "3.IH"(2)[OF mid(1) mid(2)] show ?case by simp
next
  case (4 inp a b st)
  from "4.prems" have "st' \<in> set (ms inp a st) \<or> st' \<in> set (ms inp b st)" by simp
  with "4.IH" show ?case by blast
next
  case (5 inp a st)
  from "5.prems" consider "st' = st"
    | mid where "mid \<in> set (ms inp a st)" "length (fst mid) < length (fst st)"
        "st' \<in> set (ms inp (Star a) mid)"
    unfolding ms_Star_mem[of st' inp a st] by blast
  then show ?case
  proof cases
    case 1
    then show ?thesis by simp
  next
    case 2
    from "5.IH"(2)[OF 2(1) 2(2) 2(3)] 2(2) show ?thesis by simp
  qed
next
  case (6 inp i a st)
  from "6.prems" obtain st0 where "st0 \<in> set (ms inp a st)" "fst st' = fst st0" by auto
  with "6.IH" show ?case by simp
next
  case (7 inp st)
  then show ?case by (simp split: if_splits)
next
  case (8 inp st)
  then show ?case by (simp split: if_splits)
qed

lemma ms_SeqE:
  assumes "st' \<in> set (ms inp (Seq a b) st)"
  obtains mid where "mid \<in> set (ms inp a st)" "st' \<in> set (ms inp b mid)"
  using assms by auto

lemma ms_LitD:
  "st' \<in> set (ms inp (Lit l) st) \<Longrightarrow> fst st = l @ fst st' \<and> snd st' = snd st"
  by (auto split: if_splits) (metis append_take_drop_id)

lemma ms_OptD:
  "st' \<in> set (ms inp (Opt r) st) \<Longrightarrow> st' \<in> set (ms inp r st) \<or> st' = st"
  by (auto simp: Opt_def)

lemma ms_Star_ClsD:
  "st' \<in> set (ms inp (Star (Cls P)) st) \<Longrightarrow>
     \<exists>w. fst st = w @ fst st' \<and> list_all P w \<and> snd st' = snd st"
proof (induction "fst st" arbitrary: st)
  case Nil
  then have "st = ([], snd st)" by (metis prod.collapse)
  with Nil.prems have "st' \<in> set (ms inp (Star (Cls P)) ([], snd st))" by simp
  then have "st' = ([], snd st)" by simp
  with Nil.hyps show ?case by simp
next
  case (Cons x xs)
  then have st: "st = (x # xs, snd st)" by (metis prod.collapse)
  with Cons.prems have "st' \<in> set (ms inp (Star (Cls P)) (x # xs, snd st))" by simp
  then consider "st' = (x # xs, snd st)"
    | "P x" "st' \<in> set (ms inp (Star (Cls P)) (xs, snd st))"
    by (auto split: if_splits)
  then show ?case
  proof cases
    case 1
    with Cons.hyps(2) show ?thesis by auto
  next
    case 2
    from Cons.hyps(1)[of "(xs, snd st)"] 2(2)
    obtain w where "xs = w @ fst st'" "list_all P w" "snd st' = snd st" by auto
    with 2(1) Cons.hyps(2)[symmetric] show ?thesis
      by (intro exI[of _ "x # w"]) simp
  qed
qed

lemma ms_Plus_ClsD:
  "st' \<in> set (ms inp (Plus (Cls P)) st) \<Longrightarrow>
     \<exists>w. fst st = w @ fst st' \<and> w \<noteq> [] \<and> list_all P w \<and> snd st' = snd st"
proof -
  assume "st' \<in> set (ms inp (Plus (Cls P)) st)"
  then obtain mid where mid: "mid \<in> set (ms inp (Cls P) st)"
    and st': "st' \<in> set (ms inp (Star (Cls P)) mid)"
    unfolding Plus_def by (rule ms_SeqE)
  from ms_ClsD[OF mid] obtain x where x: "fst st = x # fst mid" "P x" "snd mid = snd st"
    by auto
  from ms_Star_ClsD[OF st'] obtain w where "fst mid = w @ fst st'" "list_all P w" "snd st' = snd mid"
    by auto
  with x show ?thesis by (intro exI[of _ "x # w"]) simp
qed


lemma ms_GrpD:
  assumes "st' \<in> set (ms inp (Grp i a) st)"
    and sub: "\<And>st0. st0 \<in> set (ms inp a st) \<Longrightarrow> \<exists>w. fst st = w @ fst st0 \<and> Q w \<and> snd st0 = snd st"
  shows "\<exists>w. fst st = w @ fst st' \<and> Q w \<and> snd st' = (i, w) # snd st"
proof -
  from assms(1) obtain st0 where st0: "st0 \<in> set (ms inp a st)" "fst st' = fst st0"
    "snd st' = (i, take (length (fst st) - length (fst st0)) (fst st)) # snd st0"
    by auto
  from sub[OF st0(1)] obtain w where w: "fst st = w @ fst st0" "Q w" "snd st0 = snd st" by auto
  then have "take (length (fst st) - length (fst st0)) (fst st) = w" by simp
  with st0 w show ?thesis by auto
qed

text \<open>What the search and the loop of a global pattern return.\<close>

lemma match_atD:
  "match_at inp r s = Some m \<Longrightarrow>
     \<exists>st'. st' \<in> set (ms inp r (s, [])) \<and> m_rest m = fst st' \<and> m_caps m = snd st'
          \<and> m_whole m = take (length s - length (fst st')) s"
  by (auto simp: match_at_def split: list.splits)

lemma search_fromD:
  "search_from inp r s = Some m \<Longrightarrow>
     \<exists>pre s'. s = pre @ s' \<and> match_at inp r s' = Some m"
proof (induction s)
  case Nil
  then show ?case by simp
next
  case (Cons c cs)
  show ?case
  proof (cases "match_at inp r (c # cs)")
    case None
    with Cons.prems have "search_from inp r cs = Some m" by simp
    from Cons.IH[OF this] obtain pre s' where "cs = pre @ s'" "match_at inp r s' = Some m" by auto
    then show ?thesis by (intro exI[of _ "c # pre"] exI[of _ s']) simp
  next
    case (Some m')
    with Cons.prems show ?thesis by (intro exI[of _ "[]"] exI[of _ "c # cs"]) simp
  qed
qed

lemma exec_loop_total:
  assumes progress: "\<And>s m. search_from inp r s = Some m \<Longrightarrow> length (m_rest m) < length s"
  shows "\<exists>res. exec_loop inp r limit s acc = Some res"
proof (induction "length s" arbitrary: s acc rule: less_induct)
  case less
  show ?case
  proof (cases "search_from inp r s")
    case None
    then show ?thesis by (subst exec_loop.simps) simp
  next
    case (Some m)
    show ?thesis
    proof (cases "case limit of None \<Rightarrow> False | Some k \<Rightarrow> k \<le> length acc")
      case True
      with Some show ?thesis by (subst exec_loop.simps) simp
    next
      case False
      from progress[OF Some] have lt: "length (m_rest m) < length s" .
      from less[OF lt] obtain res where "exec_loop inp r limit (m_rest m) (acc @ [m]) = Some res"
        by blast
      with Some False lt show ?thesis by (subst exec_loop.simps) simp
    qed
  qed
qed

lemma exec_loop_all:
  assumes each: "\<And>s m. search_from inp r s = Some m \<Longrightarrow> Q m"
  shows "exec_loop inp r limit s acc = Some res \<Longrightarrow> list_all Q acc \<Longrightarrow> list_all Q res"
proof (induction "length s" arbitrary: s acc rule: less_induct)
  case less
  show ?case
  proof (cases "search_from inp r s")
    case None
    with less.prems show ?thesis by (subst (asm) exec_loop.simps) simp
  next
    case (Some m)
    show ?thesis
    proof (cases "case limit of None \<Rightarrow> False | Some k \<Rightarrow> k \<le> length acc")
      case True
      with Some less.prems show ?thesis by (subst (asm) exec_loop.simps) simp
    next
      case False
      show ?thesis
      proof (cases "length (m_rest m) < length s")
        case lt: True
        from less.prems(1) Some False lt
        have "exec_loop inp r limit (m_rest m) (acc @ [m]) = Some res"
          by (subst (asm) exec_loop.simps) simp
        moreover have "list_all Q (acc @ [m])" using less.prems(2) each[OF Some] by simp
        ultimately show ?thesis by (rule less.hyps[OF lt])
      next
        case False2: False
        with less.prems(1) Some False show ?thesis by (subst (asm) exec_loop.simps) simp
      qed
    qed
  qed
qed

section \<open>End of the stream\<close>

lemmas eval_defs = re_match_def match_at_def cap_def u16_def Opt_def Plus_def isDigit_def
  isSpace_def isLineTerminator_def isIdChar_def trim_def Rep_numeral

lemma movieReply_recommendations: "extractRecommendations movieReply = [movieRecommendation]"
  by (simp add: extractRecommendations_def moviePattern_def recommendationOf_def
      movieReply_def movieRecommendation_def eval_defs)

lemma detect_exampleLink:
  "detectVideoLinks (u16 ''https://youtu.be/dQw4w9WgXcQ'') = Some [exampleLink]"
  by (simp add: detectVideoLinks_def youtubePattern_def exampleLink_def eval_defs)

lemma search_from_progress:
  assumes "\<And>s st'. st' \<in> set (ms inp r (s, [])) \<Longrightarrow> length (fst st') < length s"
    and "search_from inp r s = Some m"
  shows "length (m_rest m) < length s"
proof -
  from search_fromD[OF assms(2)] obtain pre s' where s: "s = pre @ s'" "match_at inp r s' = Some m"
    by auto
  from match_atD[OF s(2)] obtain st' where "st' \<in> set (ms inp r (s', []))" "m_rest m = fst st'"
    by auto
  with assms(1)[of st' s'] s(1) show ?thesis by simp
qed

lemma videoPattern_progress:
  "st' \<in> set (ms inp videoPattern (s, [])) \<Longrightarrow> length (fst st') < length s"
proof -
  assume "st' \<in> set (ms inp videoPattern (s, []))"
  then obtain mid where mid: "mid \<in> set (ms inp (Lit [12304]) (s, []))"
    and rest: "st' \<in> set (ms inp (Seq (Grp 1 (Plus (Cls (\<lambda>c. c \<noteq> 12305)))) (Lit [12305])) mid)"
    unfolding videoPattern_def Seqs.simps by (rule ms_SeqE)
  from ms_LitD[OF mid] have "length (fst mid) < length s" by simp
  with ms_length_le[OF rest] show ?thesis by simp
qed

lemma extractYouTubeSearchKeywords_total:
  "\<exists>keywords. extractYouTubeSearchKeywords content = Some keywords"
proof -
  have "\<exists>res. exec_loop content videoPattern (Some 4) content [] = Some res"
    by (rule exec_loop_total) (rule search_from_progress[OF videoPattern_progress])
  then show ?thesis by (auto simp: extractYouTubeSearchKeywords_def)
qed

lemma finalEvents_shape:
  "\<exists>pre. finalEvents env fullContent = Some (pre @ [Done]) \<and> Done \<notin> set pre
         \<and> list_all isStructured pre
         \<and> (\<not> hasVideoLinks env \<longrightarrow> length pre \<le> 1)"
proof -
  obtain kws where kw: "extractYouTubeSearchKeywords fullContent = Some kws"
    using extractYouTubeSearchKeywords_total by blast
  show ?thesis
    by (cases "env_youtubeConfig env")
       (auto simp: finalEvents_def Let_def kw searchYouTubeVideos_def isYouTubeRecommendation_def)
qed

lemma processLine_out:
  "\<exists>cs. ts_out (processLine pf st line) = ts_out st @ cs \<and> Done \<notin> set cs"
  by (auto simp: processLine_def Let_def split: option.splits js_result.splits)

lemma foldl_processLine_out:
  "\<exists>cs. ts_out (foldl (processLine pf) st lines) = ts_out st @ cs \<and> Done \<notin> set cs"
proof (induction lines arbitrary: st)
  case Nil
  then show ?case by simp
next
  case (Cons l lines)
  from processLine_out[of pf st l] obtain c1
    where c1: "ts_out (processLine pf st l) = ts_out st @ c1" "Done \<notin> set c1" by blast
  from Cons.IH[of "processLine pf st l"] obtain c2
    where c2: "ts_out (foldl (processLine pf) (processLine pf st l) lines)
                 = ts_out (processLine pf st l) @ c2" "Done \<notin> set c2" by blast
  from c1 c2 show ?case by (intro exI[of _ "c1 @ c2"]) simp
qed

lemma onChunk_out:
  "\<exists>cs. ts_out (onChunk pf st chunk) = ts_out st @ cs \<and> Done \<notin> set cs"
proof -
  obtain d tx where dt: "decode_bytes (pf_decode pf) (ts_decoder st) chunk = (d, tx)"
    by (cases "decode_bytes (pf_decode pf) (ts_decoder st) chunk")
  from foldl_processLine_out[of pf "st\<lparr>ts_decoder := d, ts_buffer := last (split_nl (ts_buffer st @ tx))\<rparr>"
        "butlast (split_nl (ts_buffer st @ tx))"]
  show ?thesis by (simp add: onChunk_def dt Let_def)
qed

lemma readLoop_reaches_end:
  "\<forall>r \<in> set reads. r \<noteq> ReadError \<Longrightarrow> Done \<notin> set (ts_out st) \<Longrightarrow>
     \<exists>st' pre. readLoop pf env st reads = Some (st', Closed) \<and> ts_out st' = pre @ [Done]
              \<and> Done \<notin> set pre"
proof (induction reads arbitrary: st)
  case Nil
  from finalEvents_shape[of env "ts_fullContent st"] obtain pre
    where "finalEvents env (ts_fullContent st) = Some (pre @ [Done])" "Done \<notin> set pre" by blast
  with Nil.prems(2) show ?case
    by (intro exI[of _ "st\<lparr>ts_out := ts_out st @ pre @ [Done]\<rparr>"] exI[of _ "ts_out st @ pre"]) simp
next
  case (Cons r reads)
  from Cons.prems(1) obtain chunk where r: "r = ReadChunk chunk" by (cases r) auto
  from onChunk_out[of pf st chunk] Cons.prems(2) have "Done \<notin> set (ts_out (onChunk pf st chunk))"
    by auto
  from Cons.IH[OF _ this] Cons.prems(1) show ?case by (simp add: r)
qed

lemma readLoop_error:
  "ReadError \<in> set reads \<Longrightarrow> Done \<notin> set (ts_out st) \<Longrightarrow>
     \<exists>st'. readLoop pf env st reads = Some (st', Errored) \<and> Done \<notin> set (ts_out st')"
proof (induction reads arbitrary: st)
  case Nil
  then show ?case by simp
next
  case (Cons r reads)
  show ?case
  proof (cases r)
    case (ReadChunk chunk)
    from onChunk_out[of pf st chunk] Cons.prems(2) have "Done \<notin> set (ts_out (onChunk pf st chunk))"
      by auto
    from Cons.IH[OF _ this] Cons.prems(1) ReadChunk show ?thesis by simp
  next
    case ReadError
    with Cons.prems(2) show ?thesis by simp
  qed
qed

text \<open>
  Claim C5, amended. When the upstream response has a body and every read succeeds up to
  the end of the stream, the handler terminates, closes the stream to the client, and the
  last event it enqueued is the literal line \<open>data: [DONE]\<close> followed by two newlines; no
  earlier event is that line. When a read fails the stream is errored and no done line
  was sent. When the response has no body the stream is closed at once with no event.
\<close>

theorem stream_read_to_end_finishes_with_done:
  "((\<forall>r \<in> set reads. r \<noteq> ReadError) \<longrightarrow>
      (\<exists>st pre. start pf env d0 (Some reads) = Some (st, Closed) \<and> ts_out st = pre @ [Done]
         \<and> Done \<notin> set pre
         \<and> encodeEvent stringify (last (ts_out st)) = u16 ''data: [DONE]'' @ [10, 10]))
   \<and> (ReadError \<in> set reads \<longrightarrow>
        (\<exists>st. start pf env d0 (Some reads) = Some (st, Errored) \<and> Done \<notin> set (ts_out st)))
   \<and> start pf env d0 None = Some (initialState d0, Closed)
   \<and> ts_out (initialState d0) = []"
proof (intro conjI impI)
  assume "\<forall>r \<in> set reads. r \<noteq> ReadError"
  from readLoop_reaches_end[OF this, of "initialState d0" pf env]
  obtain st pre where "readLoop pf env (initialState d0) reads = Some (st, Closed)"
    "ts_out st = pre @ [Done]" "Done \<notin> set pre"
    by (auto simp: initialState_def)
  then show "\<exists>st pre. start pf env d0 (Some reads) = Some (st, Closed) \<and> ts_out st = pre @ [Done]
         \<and> Done \<notin> set pre
         \<and> encodeEvent stringify (last (ts_out st)) = u16 ''data: [DONE]'' @ [10, 10]"
    by (intro exI[of _ st] exI[of _ pre]) (simp add: start_def encodeEvent_def)
next
  assume "ReadError \<in> set reads"
  from readLoop_error[OF this, of "initialState d0" pf env]
  show "\<exists>st. start pf env d0 (Some reads) = Some (st, Errored) \<and> Done \<notin> set (ts_out st)"
    by (auto simp: initialState_def start_def)
qed (simp_all add: start_def initialState_def)


lemma exampleReads_run:
  "start examplePlatform plainEnv () (Some exampleReads)
     = Some (\<lparr>ts_decoder = (), ts_buffer = [], ts_fullContent = u16 ''Hi'',
               ts_out = [ContentDelta (JStr (u16 ''Hi'')), Done]\<rparr>, Closed)"
  by (simp add: start_def exampleReads_def initialState_def onChunk_def examplePlatform_def
      exampleDecode_def exampleParse_def deltaOf_def processLine_def Let_def startsWith_def
      deltaContent_def contentText_def finalEvents_def plainEnv_def hasVideoLinks_def
      isYouTubeRecommendation_def extractRecommendations_def moviePattern_def eval_defs)

theorem stream_read_to_end_finishes_with_done_witness:
  "(\<exists>st pre. start examplePlatform plainEnv () (Some exampleReads) = Some (st, Closed)
       \<and> ts_out st = pre @ [Done] \<and> Done \<notin> set pre
       \<and> encodeEvent (\<lambda>e. []) (last (ts_out st)) = u16 ''data: [DONE]'' @ [10, 10])
   \<and> (\<exists>st. start examplePlatform plainEnv () (Some (exampleReads @ [ReadError]))
               = Some (st, Errored) \<and> Done \<notin> set (ts_out st))"
proof -
  have a: "\<forall>r \<in> set exampleReads. r \<noteq> ReadError" by (simp add: exampleReads_def)
  have b: "ReadError \<in> set (exampleReads @ [ReadError])" by simp
  from stream_read_to_end_finishes_with_done[of exampleReads examplePlatform plainEnv "()" "\<lambda>e. []"] a
       stream_read_to_end_finishes_with_done[of "exampleReads @ [ReadError]" examplePlatform plainEnv "()" "\<lambda>e. []"] b
  show ?thesis by blast
qed

text \<open>
  The claim as stated fails on the path of a response without a body: the stream ends,
  closed, and nothing was enqueued.
\<close>

theorem bodyless_response_closes_without_done:
  "start examplePlatform plainEnv () None
     = Some (\<lparr>ts_decoder = (), ts_buffer = [], ts_fullContent = [], ts_out = []\<rparr>, Closed)"
  by (simp add: start_def initialState_def)

section \<open>One structured payload\<close>

text \<open>
  What holds on every path. The non-streaming branch always returns; a reply object it
  returns carries exactly one of \<open>videoLinks\<close>, \<open>youtubeVideos\<close> and
  \<open>recommendations\<close>, with \<open>type\<close> equal to \<open>video_link_parse\<close> for the first,
  \<open>youtube_recommend\<close> for the second, and absent for the third. In streaming mode, when
  the last user message holds no video link, the end of the stream enqueues at most one
  structured event and then the done line.
\<close>

lemma reply_shapes:
  "(\<exists>res. nonStreamReply env aiContent = Some res)
   \<and> (\<forall>r. nonStreamReply env aiContent = Some (Inr r) \<longrightarrow>
          (rp_videoLinks r \<noteq> None \<and> rp_youtubeVideos r = None \<and> rp_recommendations r = None
             \<and> rp_type r = Some (u16 ''video_link_parse''))
          \<or> (rp_videoLinks r = None \<and> rp_youtubeVideos r \<noteq> None \<and> rp_recommendations r = None
             \<and> rp_type r = Some (u16 ''youtube_recommend''))
          \<or> (rp_videoLinks r = None \<and> rp_youtubeVideos r = None \<and> rp_recommendations r \<noteq> None
             \<and> rp_type r = None))
   \<and> (\<not> hasVideoLinks env \<longrightarrow>
         (\<exists>pre. finalEvents env fullContent = Some (pre @ [Done]) \<and> list_all isStructured pre
            \<and> length pre \<le> 1 \<and> Done \<notin> set pre))"
proof (intro conjI allI impI)
  show "\<exists>res. nonStreamReply env aiContent = Some res"
  proof (cases aiContent)
    case None
    then show ?thesis by (simp add: nonStreamReply_def)
  next
    case (Some c)
    obtain kws where kw: "extractYouTubeSearchKeywords c = Some kws"
      using extractYouTubeSearchKeywords_total by blast
    show ?thesis
      by (cases "env_youtubeConfig env")
         (auto simp: nonStreamReply_def Some kw searchYouTubeVideos_def isYouTubeRecommendation_def)
  qed
next
  fix r assume r: "nonStreamReply env aiContent = Some (Inr r)"
  show "(rp_videoLinks r \<noteq> None \<and> rp_youtubeVideos r = None \<and> rp_recommendations r = None
             \<and> rp_type r = Some (u16 ''video_link_parse''))
          \<or> (rp_videoLinks r = None \<and> rp_youtubeVideos r \<noteq> None \<and> rp_recommendations r = None
             \<and> rp_type r = Some (u16 ''youtube_recommend''))
          \<or> (rp_videoLinks r = None \<and> rp_youtubeVideos r = None \<and> rp_recommendations r \<noteq> None
             \<and> rp_type r = None)"
  proof (cases aiContent)
    case None
    with r show ?thesis by (simp add: nonStreamReply_def)
  next
    case (Some c)
    with r show ?thesis
      by (auto simp: nonStreamReply_def recommendationsReply_def
          split: if_splits option.splits sum.splits)
  qed
next
  assume "\<not> hasVideoLinks env"
  with finalEvents_shape[of env fullContent]
  show "\<exists>pre. finalEvents env fullContent = Some (pre @ [Done]) \<and> list_all isStructured pre
            \<and> length pre \<le> 1 \<and> Done \<notin> set pre"
    by blast
qed

lemma movieReply_trim: "movieReply \<noteq> [] \<and> trim movieReply \<noteq> []"
  by (simp add: movieReply_def trim_def isSpace_def u16_def)

lemma plain_nonStreamReply:
  "nonStreamReply plainEnv (Some movieReply)
     = Some (Inr \<lparr>rp_videoLinks = None, rp_youtubeVideos = None,
                  rp_recommendations = Some [movieRecommendation], rp_type = None\<rparr>)"
  using movieReply_trim
  by (simp add: nonStreamReply_def plainEnv_def hasVideoLinks_def isYouTubeRecommendation_def
      recommendationsReply_def movieReply_recommendations)

lemma movieReply_nonempty: "movieReply \<noteq> []"
  using movieReply_trim by simp

lemma link_nonStreamReply:
  "nonStreamReply linkEnv (Some movieReply)
     = Some (Inr \<lparr>rp_videoLinks = Some (handleVideoLinkParsing non2xxNet [exampleLink]),
                  rp_youtubeVideos = None, rp_recommendations = None,
                  rp_type = Some (u16 ''video_link_parse'')\<rparr>)"
  using movieReply_trim
  by (simp add: nonStreamReply_def linkEnv_def hasVideoLinks_def)

lemma link_finalEvents:
  "finalEvents linkEnv movieReply
     = Some [VideoLinks (handleVideoLinkParsing non2xxNet [exampleLink]),
             Recommendations [movieRecommendation], Done]"
  using movieReply_nonempty
  by (simp add: finalEvents_def linkEnv_def hasVideoLinks_def isYouTubeRecommendation_def
      movieReply_recommendations)

text \<open>
  Claim C1. The code departs from the claim. When the last user message holds a video
  link (here \<open>https://youtu.be/dQw4w9WgXcQ\<close>) and the reply holds a recommendation line,
  the end of the stream enqueues two structured events before the done line, a
  \<open>video_links\<close> event and a \<open>recommendations\<close> event: the streaming branch goes on to
  the recommendations after the links, where its non-streaming sibling returns. On the
  same input the non-streaming branch answers with \<open>videoLinks\<close> alone and the type
  \<open>video_link_parse\<close>. The non-streaming object that carries \<open>recommendations\<close> has no
  \<open>type\<close> field.
\<close>

theorem streaming_link_reply_emits_two_structured_events:
  "detectVideoLinks (u16 ''https://youtu.be/dQw4w9WgXcQ'') = Some (env_videoLinks linkEnv)
   \<and> finalEvents linkEnv movieReply
       = Some [VideoLinks (handleVideoLinkParsing non2xxNet [exampleLink]),
               Recommendations [movieRecommendation], Done]
   \<and> map isStructured [VideoLinks (handleVideoLinkParsing non2xxNet [exampleLink]),
                         Recommendations [movieRecommendation], Done] = [True, True, False]
   \<and> nonStreamReply linkEnv (Some movieReply)
       = Some (Inr \<lparr>rp_videoLinks = Some (handleVideoLinkParsing non2xxNet [exampleLink]),
                    rp_youtubeVideos = None, rp_recommendations = None,
                    rp_type = Some (u16 ''video_link_parse'')\<rparr>)
   \<and> nonStreamReply plainEnv (Some movieReply)
       = Some (Inr \<lparr>rp_videoLinks = None, rp_youtubeVideos = None,
                    rp_recommendations = Some [movieRecommendation], rp_type = None\<rparr>)"
  using detect_exampleLink link_finalEvents link_nonStreamReply plain_nonStreamReply
  by (simp add: linkEnv_def)

section \<open>Video ids\<close>

lemma youtubePattern_results:
  assumes "st' \<in> set (ms inp youtubePattern (s, []))"
  shows "\<exists>w. w \<noteq> [] \<and> list_all isIdChar w \<and> map_of (snd st') 1 = Some w
             \<and> length (fst st') < length s"
proof -
  let ?A = "Opt (Seqs [Lit (u16 ''http''), Opt (Lit (u16 ''s'')), Lit (u16 ''://'')])"
  let ?B = "Opt (Lit (u16 ''www.''))"
  let ?C = "Alt (Lit (u16 ''youtube.com/watch?v=''))
             (Alt (Lit (u16 ''youtu.be/''))
               (Alt (Lit (u16 ''youtube.com/embed/'')) (Lit (u16 ''youtube.com/v/''))))"
  let ?G = "Grp 1 (Plus (Cls isIdChar))"
  have pat: "youtubePattern = Seq ?A (Seq ?B (Seq ?C ?G))"
    by (simp add: youtubePattern_def)
  from assms obtain m1 where m1: "m1 \<in> set (ms inp ?A (s, []))"
    and r1: "st' \<in> set (ms inp (Seq ?B (Seq ?C ?G)) m1)"
    unfolding pat by (rule ms_SeqE)
  from r1 obtain m2 where m2: "m2 \<in> set (ms inp ?B m1)"
    and r2: "st' \<in> set (ms inp (Seq ?C ?G) m2)"
    by (rule ms_SeqE)
  from r2 obtain m3 where m3: "m3 \<in> set (ms inp ?C m2)" and r3: "st' \<in> set (ms inp ?G m3)"
    by (rule ms_SeqE)
  from ms_length_le[OF m1] ms_length_le[OF m2] ms_length_le[OF m3]
  have le: "length (fst m3) \<le> length s" by simp
  have "\<exists>w. fst m3 = w @ fst st' \<and> (w \<noteq> [] \<and> list_all isIdChar w) \<and> snd st' = (1, w) # snd m3"
    using r3
  proof (rule ms_GrpD)
    fix st0 assume "st0 \<in> set (ms inp (Plus (Cls isIdChar)) m3)"
    from ms_Plus_ClsD[OF this]
    show "\<exists>w. fst m3 = w @ fst st0 \<and> (w \<noteq> [] \<and> list_all isIdChar w) \<and> snd st0 = snd m3"
      by blast
  qed
  then obtain w where w: "fst m3 = w @ fst st'" "w \<noteq> []" "list_all isIdChar w"
    "snd st' = (1, w) # snd m3" by blast
  from w(1,2) le have "length (fst st') < length s" by (cases w) auto
  with w show ?thesis by (intro exI[of _ w]) simp
qed

lemma youtubePattern_search:
  assumes "search_from inp youtubePattern s = Some m"
  shows "cap m 1 \<noteq> [] \<and> list_all isIdChar (cap m 1) \<and> length (m_rest m) < length s"
proof -
  from search_fromD[OF assms] obtain pre s' where s: "s = pre @ s'"
    "match_at inp youtubePattern s' = Some m" by auto
  from match_atD[OF s(2)] obtain st' where st': "st' \<in> set (ms inp youtubePattern (s', []))"
    "m_rest m = fst st'" "m_caps m = snd st'" by auto
  from youtubePattern_results[OF st'(1)] st'(2,3) s(1) show ?thesis
    by (auto simp: cap_def)
qed

lemma detectVideoLinks_ids:
  "\<exists>links. detectVideoLinks content = Some links
     \<and> list_all (\<lambda>l. vl_videoId l \<noteq> [] \<and> list_all isIdChar (vl_videoId l)) links"
proof -
  have "\<exists>res. exec_loop content youtubePattern None content [] = Some res"
    by (rule exec_loop_total) (use youtubePattern_search in blast)
  then obtain res where res: "exec_loop content youtubePattern None content [] = Some res" by blast
  have "list_all (\<lambda>m. cap m 1 \<noteq> [] \<and> list_all isIdChar (cap m 1)) res"
  proof (rule exec_loop_all[OF _ res])
    fix s m assume "search_from content youtubePattern s = Some m"
    from youtubePattern_search[OF this]
    show "cap m 1 \<noteq> [] \<and> list_all isIdChar (cap m 1)" by blast
  next
    show "list_all (\<lambda>m. cap m 1 \<noteq> [] \<and> list_all isIdChar (cap m 1)) []" by simp
  qed
  with res show ?thesis
    by (simp add: detectVideoLinks_def list_all_iff)
qed

lemma ms_Star_Cls_greedy:
  "list_all P w \<Longrightarrow> post = [] \<or> \<not> P (hd post) \<Longrightarrow>
     \<exists>rest. ms inp (Star (Cls P)) (w @ post, c) = (post, c) # rest"
proof (induction w)
  case Nil
  then show ?case by (cases post) auto
next
  case (Cons a w)
  then obtain rest where "ms inp (Star (Cls P)) (w @ post, c) = (post, c) # rest" by auto
  with Cons.prems(1) show ?case by simp
qed

lemma ms_Grp_Plus_Cls_greedy:
  assumes "w \<noteq> []" "list_all P w" "post = [] \<or> \<not> P (hd post)"
  shows "\<exists>rest. ms inp (Grp i (Plus (Cls P))) (w @ post, c) = (post, (i, w) # c) # rest"
proof -
  from assms(1) obtain a w' where w: "w = a # w'" by (cases w) auto
  with assms(2) have a: "P a" "list_all P w'" by auto
  from ms_Star_Cls_greedy[OF a(2) assms(3)]
  obtain rest where "ms inp (Star (Cls P)) (w' @ post, c) = (post, c) # rest" by blast
  with a(1) show ?thesis
    by (simp add: w Plus_def)
qed

lemma youtubePattern_no_start:
  "x \<noteq> 104 \<Longrightarrow> x \<noteq> 119 \<Longrightarrow> x \<noteq> 121 \<Longrightarrow> ms inp youtubePattern (x # xs, []) = []"
  by (simp add: youtubePattern_def Opt_def u16_def)

lemma youtubePattern_skip:
  "\<forall>x \<in> set pre. x \<noteq> 104 \<and> x \<noteq> 119 \<and> x \<noteq> 121 \<Longrightarrow>
     search_from inp youtubePattern (pre @ s) = search_from inp youtubePattern s"
  by (induction pre) (simp_all add: match_at_def youtubePattern_no_start)

lemma youtubePattern_short_url:
  "ms inp youtubePattern (u16 ''https://youtu.be/'' @ s, [])
     = ms inp (Grp 1 (Plus (Cls isIdChar))) (s, [])"
  by (simp add: youtubePattern_def Opt_def u16_def)

lemma exec_loop_prefix:
  "exec_loop inp r limit s acc = Some res \<Longrightarrow> \<exists>more. res = acc @ more"
proof (induction "length s" arbitrary: s acc rule: less_induct)
  case less
  show ?case
  proof (cases "search_from inp r s")
    case None
    with less.prems show ?thesis by (subst (asm) exec_loop.simps) simp
  next
    case (Some m)
    show ?thesis
    proof (cases "case limit of None \<Rightarrow> False | Some k \<Rightarrow> k \<le> length acc")
      case True
      with Some less.prems show ?thesis by (subst (asm) exec_loop.simps) simp
    next
      case False
      show ?thesis
      proof (cases "length (m_rest m) < length s")
        case lt: True
        from less.prems(1) Some False lt
        have "exec_loop inp r limit (m_rest m) (acc @ [m]) = Some res"
          by (subst (asm) exec_loop.simps) simp
        from less.hyps[OF lt this] show ?thesis by auto
      next
        case False2: False
        with less.prems(1) Some False show ?thesis by (subst (asm) exec_loop.simps) simp
      qed
    qed
  qed
qed

lemma detect_first_link:
  assumes pre: "\<forall>x \<in> set pre. x \<noteq> 104 \<and> x \<noteq> 119 \<and> x \<noteq> 121"
    and vid: "vid \<noteq> []" "list_all isIdChar vid"
    and post: "post = [] \<or> \<not> isIdChar (hd post)"
  shows "\<exists>links. detectVideoLinks (pre @ u16 ''https://youtu.be/'' @ vid @ post)
           = Some (\<lparr>vl_originalUrl = u16 ''https://youtu.be/'' @ vid, vl_videoId = vid,
                    vl_fullMatch = u16 ''https://youtu.be/'' @ vid\<rparr> # links)"
proof -
  let ?U = "u16 ''https://youtu.be/''"
  let ?s = "?U @ vid @ post"
  let ?content = "pre @ ?s"
  let ?m = "\<lparr>m_whole = ?U @ vid, m_caps = [(1, vid)], m_rest = post\<rparr>"
  from ms_Grp_Plus_Cls_greedy[OF vid post, of ?content 1 "[]"]
  obtain rest where "ms ?content (Grp 1 (Plus (Cls isIdChar))) (vid @ post, [])
                       = (post, [(1, vid)]) # rest" by blast
  then have "ms ?content youtubePattern (?s, []) = (post, [(1, vid)]) # rest"
    by (simp add: youtubePattern_short_url)
  then have at: "match_at ?content youtubePattern ?s = Some ?m"
    by (simp add: match_at_def)
  have "?s \<noteq> []" by (simp add: u16_def)
  then obtain x xs where s: "?s = x # xs" by (cases ?s) auto
  have "search_from ?content youtubePattern ?s = Some ?m"
    unfolding s using at[unfolded s] by simp
  then have found: "search_from ?content youtubePattern ?content = Some ?m"
    using youtubePattern_skip[OF pre, of ?content ?s] by simp
  have lt: "length post < length ?content" by (simp add: u16_def)
  have "\<exists>res. exec_loop ?content youtubePattern None post [?m] = Some res"
    by (rule exec_loop_total) (use youtubePattern_search in blast)
  then obtain res where res: "exec_loop ?content youtubePattern None post [?m] = Some res"
    by blast
  from exec_loop_prefix[OF res] obtain more where more: "res = ?m # more" by auto
  have "exec_loop ?content youtubePattern None ?content [] = Some (?m # more)"
    using found lt res more by (subst exec_loop.simps) simp
  then show ?thesis
    by (simp add: detectVideoLinks_def cap_def)
qed

lemma handleVideoLinkParsing_ids:
  "map vr_videoId (handleVideoLinkParsing net links) = map vl_videoId links"
proof -
  have ids: "vr_videoId (parseOneLink outcome link) = vl_videoId link" for outcome link
    by (simp add: parseOneLink_def split: oembed_outcome.splits bool.splits option.splits)
  show ?thesis
    by (rule nth_equalityI) (simp_all add: handleVideoLinkParsing_def parse_loop_map ids)
qed

text \<open>
  Claim C2, amended. The proxy endpoint accepts a video id exactly when it consists of 11
  characters of \<open>[A-Za-z0-9_-]\<close>; any other request is refused with status 400 before
  any fetch. Link detection in the relay always returns, and every id it captures is a
  non-empty string of such characters, of whatever length; link parsing keeps the ids as
  captured. For a message made of text without the letters \<open>h\<close>, \<open>w\<close> and \<open>y\<close>, then
  \<open>https://youtu.be/\<close>, then one or more characters of \<open>[A-Za-z0-9_-]\<close>, then the end
  of the message or a character outside that set, the first link found has exactly those
  characters as its id and the URL up to them as its text. So for the message
  \<open>https://youtu.be/dQw4w9WgXcQ\<close> the one link found has the id \<open>dQw4w9WgXcQ\<close>, and
  an id followed directly by further such characters is captured together with them.
\<close>

theorem video_ids_are_url_safe:
  "(re_test videoIdPattern v \<longleftrightarrow> length v = 11 \<and> list_all isIdChar v)
   \<and> (\<forall>request. \<not> (\<exists>x. pq_v request = Some x \<and> length x = 11 \<and> list_all isIdChar x)
         \<longrightarrow> (\<exists>msg. GET net request = (JsonError 400 msg, [])))
   \<and> (\<exists>links. detectVideoLinks content = Some links
         \<and> (\<forall>l \<in> set links. vl_videoId l \<noteq> [] \<and> list_all isIdChar (vl_videoId l))
         \<and> map vr_videoId (handleVideoLinkParsing onet links) = map vl_videoId links)
   \<and> detectVideoLinks (u16 ''https://youtu.be/dQw4w9WgXcQ'') = Some [exampleLink]
   \<and> vl_videoId exampleLink = u16 ''dQw4w9WgXcQ''
   \<and> ((\<forall>x \<in> set pre. x \<noteq> 104 \<and> x \<noteq> 119 \<and> x \<noteq> 121)
        \<and> vid \<noteq> [] \<and> list_all isIdChar vid \<and> (post = [] \<or> \<not> isIdChar (hd post))
      \<longrightarrow> (\<exists>links. detectVideoLinks (pre @ u16 ''https://youtu.be/'' @ vid @ post)
                     = Some (\<lparr>vl_originalUrl = u16 ''https://youtu.be/'' @ vid,
                              vl_videoId = vid,
                              vl_fullMatch = u16 ''https://youtu.be/'' @ vid\<rparr> # links)))"
proof (intro conjI allI impI)
  show "re_test videoIdPattern v \<longleftrightarrow> length v = 11 \<and> list_all isIdChar v"
    by (simp add: re_test_videoIdPattern validVideoId_def)
next
  fix request :: proxyRequest
  assume bad: "\<not> (\<exists>x. pq_v request = Some x \<and> length x = 11 \<and> list_all isIdChar x)"
  show "\<exists>msg. GET net request = (JsonError 400 msg, [])"
  proof (cases "nonEmpty (pq_v request)")
    case False
    then show ?thesis by (simp add: GET_def)
  next
    case True
    then obtain x where x: "pq_v request = Some x" by (auto simp: nonEmpty_def split: option.splits)
    with bad have "\<not> re_test videoIdPattern x"
      by (simp add: re_test_videoIdPattern validVideoId_def)
    with True x show ?thesis by (simp add: GET_def Let_def)
  qed
next
  from detectVideoLinks_ids[of content] handleVideoLinkParsing_ids
  show "\<exists>links. detectVideoLinks content = Some links
         \<and> (\<forall>l \<in> set links. vl_videoId l \<noteq> [] \<and> list_all isIdChar (vl_videoId l))
         \<and> map vr_videoId (handleVideoLinkParsing onet links) = map vl_videoId links"
    by (auto simp: list_all_iff)
next
  assume "(\<forall>x \<in> set pre. x \<noteq> 104 \<and> x \<noteq> 119 \<and> x \<noteq> 121)
        \<and> vid \<noteq> [] \<and> list_all isIdChar vid \<and> (post = [] \<or> \<not> isIdChar (hd post))"
  then show "\<exists>links. detectVideoLinks (pre @ u16 ''https://youtu.be/'' @ vid @ post)
                     = Some (\<lparr>vl_originalUrl = u16 ''https://youtu.be/'' @ vid,
                              vl_videoId = vid,
                              vl_fullMatch = u16 ''https://youtu.be/'' @ vid\<rparr> # links)"
    using detect_first_link[of pre vid post] by blast
qed (simp_all add: detect_exampleLink exampleLink_def)

lemma short_id_detected: "detectVideoLinks (u16 ''youtube.com/v/abc'') = Some [otherLink]"
  by (simp add: detectVideoLinks_def youtubePattern_def otherLink_def eval_defs)

lemma long_message_detected: "detectVideoLinks longMessage = Some [exampleLink]"
  by (simp add: detectVideoLinks_def youtubePattern_def exampleLink_def longMessage_def eval_defs)

lemma run_on_detected:
  "detectVideoLinks runOnMessage
     = Some [\<lparr>vl_originalUrl = runOnMessage, vl_videoId = u16 ''dQw4w9WgXcQ-live'',
              vl_fullMatch = runOnMessage\<rparr>]"
  by (simp add: detectVideoLinks_def youtubePattern_def runOnMessage_def eval_defs)

theorem video_ids_are_url_safe_witness:
  "re_test videoIdPattern (u16 ''dQw4w9WgXcQ'')
   \<and> (\<exists>msg. GET deadNet (infoRequest\<lparr>pq_v := Some (u16 ''abc'')\<rparr>) = (JsonError 400 msg, []))
   \<and> detectVideoLinks (u16 ''youtube.com/v/abc'') = Some [otherLink]
   \<and> vl_videoId otherLink \<noteq> [] \<and> list_all isIdChar (vl_videoId otherLink)
   \<and> map vr_videoId (handleVideoLinkParsing non2xxNet [otherLink]) = [u16 ''abc'']
   \<and> longMessage = u16 ''see '' @ u16 ''https://youtu.be/'' @ u16 ''dQw4w9WgXcQ'' @ u16 '' now''
   \<and> (\<exists>links. detectVideoLinks longMessage
                  = Some (\<lparr>vl_originalUrl = u16 ''https://youtu.be/dQw4w9WgXcQ'',
                           vl_videoId = u16 ''dQw4w9WgXcQ'',
                           vl_fullMatch = u16 ''https://youtu.be/dQw4w9WgXcQ''\<rparr> # links))"
proof -
  note t = video_ids_are_url_safe[of "u16 ''dQw4w9WgXcQ''" deadNet "u16 ''youtube.com/v/abc''"
      non2xxNet "u16 ''see ''" "u16 ''dQw4w9WgXcQ''" "u16 '' now''"]
  have v: "length (u16 ''dQw4w9WgXcQ'') = 11 \<and> list_all isIdChar (u16 ''dQw4w9WgXcQ'')"
    by (simp add: u16_def isIdChar_def)
  have bad: "\<not> (\<exists>x. pq_v (infoRequest\<lparr>pq_v := Some (u16 ''abc'')\<rparr>) = Some x \<and> length x = 11
               \<and> list_all isIdChar x)"
    by (simp add: u16_def)
  have hyp: "(\<forall>x \<in> set (u16 ''see ''). x \<noteq> 104 \<and> x \<noteq> 119 \<and> x \<noteq> 121)
        \<and> u16 ''dQw4w9WgXcQ'' \<noteq> [] \<and> list_all isIdChar (u16 ''dQw4w9WgXcQ'')
        \<and> (u16 '' now'' = [] \<or> \<not> isIdChar (hd (u16 '' now'')))"
    by (simp add: u16_def isIdChar_def)
  have lm: "longMessage
              = u16 ''see '' @ u16 ''https://youtu.be/'' @ u16 ''dQw4w9WgXcQ'' @ u16 '' now''"
    "u16 ''https://youtu.be/'' @ u16 ''dQw4w9WgXcQ'' = u16 ''https://youtu.be/dQw4w9WgXcQ''"
    by (simp_all add: longMessage_def u16_def)
  from t v have a: "re_test videoIdPattern (u16 ''dQw4w9WgXcQ'')" by blast
  from t bad have b: "\<exists>msg. GET deadNet (infoRequest\<lparr>pq_v := Some (u16 ''abc'')\<rparr>) = (JsonError 400 msg, [])"
    by blast
  from t obtain links where l: "detectVideoLinks (u16 ''youtube.com/v/abc'') = Some links"
    "\<forall>l \<in> set links. vl_videoId l \<noteq> [] \<and> list_all isIdChar (vl_videoId l)"
    "map vr_videoId (handleVideoLinkParsing non2xxNet links) = map vl_videoId links"
    by blast
  from l(1) short_id_detected have links: "links = [otherLink]" by simp
  from l(2,3) have c: "vl_videoId otherLink \<noteq> [] \<and> list_all isIdChar (vl_videoId otherLink)"
    "map vr_videoId (handleVideoLinkParsing non2xxNet [otherLink]) = [u16 ''abc'']"
    unfolding links by (simp_all add: otherLink_def)
  from t hyp
  have "\<exists>links. detectVideoLinks
                  (u16 ''see '' @ u16 ''https://youtu.be/'' @ u16 ''dQw4w9WgXcQ'' @ u16 '' now'')
                  = Some (\<lparr>vl_originalUrl = u16 ''https://youtu.be/'' @ u16 ''dQw4w9WgXcQ'',
                           vl_videoId = u16 ''dQw4w9WgXcQ'',
                           vl_fullMatch = u16 ''https://youtu.be/'' @ u16 ''dQw4w9WgXcQ''\<rparr>
                          # links)"
    by blast
  then have d: "\<exists>links. detectVideoLinks longMessage
                  = Some (\<lparr>vl_originalUrl = u16 ''https://youtu.be/dQw4w9WgXcQ'',
                           vl_videoId = u16 ''dQw4w9WgXcQ'',
                           vl_fullMatch = u16 ''https://youtu.be/dQw4w9WgXcQ''\<rparr> # links)"
    by (simp only: lm)
  from a b c d lm(1) short_id_detected show ?thesis by blast
qed

text \<open>
  The claim as stated fails in the relay: from \<open>youtube.com/v/abc\<close> the id \<open>abc\<close>, of
  three characters, is captured; and from \<open>https://youtu.be/dQw4w9WgXcQ-live\<close> the id
  \<open>dQw4w9WgXcQ-live\<close>, of sixteen.
\<close>

theorem short_video_id_is_captured:
  "detectVideoLinks (u16 ''youtube.com/v/abc'') = Some [otherLink]
   \<and> vl_videoId otherLink = u16 ''abc'' \<and> length (u16 ''abc'') = 3
   \<and> detectVideoLinks runOnMessage
       = Some [\<lparr>vl_originalUrl = runOnMessage, vl_videoId = u16 ''dQw4w9WgXcQ-live'',
                vl_fullMatch = runOnMessage\<rparr>]
   \<and> runOnMessage = u16 ''https://youtu.be/dQw4w9WgXcQ'' @ u16 ''-live''
   \<and> length (u16 ''dQw4w9WgXcQ-live'') = 16"
  by (simp add: short_id_detected run_on_detected) (simp add: otherLink_def runOnMessage_def u16_def)

section \<open>Movie lines\<close>









section \<open>Chunk boundaries\<close>

lemma split_nl_not_Nil: "split_nl s \<noteq> []"
  by (induction s) (auto split: list.splits)

lemma split_nl_append:
  "split_nl (a @ b) = butlast (split_nl a) @ split_nl (last (split_nl a) @ b)"
proof (induction a)
  case Nil
  then show ?case by simp
next
  case (Cons c a)
  show ?case
  proof (cases "c = 10")
    case True
    then show ?thesis using Cons.IH split_nl_not_Nil[of a] by simp
  next
    case False
    obtain l ls where sa: "split_nl a = l # ls"
      using split_nl_not_Nil[of a] by (cases "split_nl a") auto
    show ?thesis
    proof (cases ls)
      case Nil
      with sa False Cons.IH show ?thesis by simp
    next
      case (Cons l2 ls2)
      with sa False Cons.IH show ?thesis by simp
    qed
  qed
qed

lemma last_split_nl_no_newline: "10 \<notin> set (last (split_nl s))"
proof (induction s)
  case Nil
  then show ?case by simp
next
  case (Cons c s)
  obtain l ls where sa: "split_nl s = l # ls"
    using split_nl_not_Nil[of s] by (cases "split_nl s") auto
  with Cons.IH show ?case by (cases ls) auto
qed

lemma split_nl_no_newline: "10 \<notin> set s \<Longrightarrow> split_nl s = [s]"
  by (induction s) auto

lemma decode_bytes_append:
  "decode_bytes step d (a @ b) =
     (case decode_bytes step d a of
        (d1, t1) \<Rightarrow> (case decode_bytes step d1 b of (d2, t2) \<Rightarrow> (d2, t1 @ t2)))"
  by (induction a arbitrary: d) (auto split: prod.splits)

lemma processLine_frame:
  "processLine pf (st\<lparr>ts_decoder := d, ts_buffer := b\<rparr>) line
     = (processLine pf st line)\<lparr>ts_decoder := d, ts_buffer := b\<rparr>"
  by (simp add: processLine_def Let_def split: option.splits js_result.splits)

lemma foldl_processLine_frame:
  "foldl (processLine pf) (st\<lparr>ts_decoder := d, ts_buffer := b\<rparr>) lines
     = (foldl (processLine pf) st lines)\<lparr>ts_decoder := d, ts_buffer := b\<rparr>"
  by (induction lines arbitrary: st) (simp_all add: processLine_frame)

lemma onChunk_eq:
  "onChunk pf st chunk =
     (foldl (processLine pf) st
        (butlast (split_nl (ts_buffer st @ snd (decode_bytes (pf_decode pf) (ts_decoder st) chunk)))))
     \<lparr>ts_decoder := fst (decode_bytes (pf_decode pf) (ts_decoder st) chunk),
      ts_buffer := last (split_nl (ts_buffer st
                     @ snd (decode_bytes (pf_decode pf) (ts_decoder st) chunk)))\<rparr>"
  by (simp add: onChunk_def Let_def foldl_processLine_frame split: prod.splits)

lemma onChunk_decoder:
  "ts_decoder (onChunk pf st chunk) = fst (decode_bytes (pf_decode pf) (ts_decoder st) chunk)"
  by (simp add: onChunk_eq)

lemma onChunk_buffer:
  "ts_buffer (onChunk pf st chunk)
     = last (split_nl (ts_buffer st @ snd (decode_bytes (pf_decode pf) (ts_decoder st) chunk)))"
  by (simp add: onChunk_eq)

lemma onChunk_append: "onChunk pf (onChunk pf st a) b = onChunk pf st (a @ b)"
proof -
  obtain d1 t1 where a: "decode_bytes (pf_decode pf) (ts_decoder st) a = (d1, t1)"
    by (cases "decode_bytes (pf_decode pf) (ts_decoder st) a")
  obtain d2 t2 where b: "decode_bytes (pf_decode pf) d1 b = (d2, t2)"
    by (cases "decode_bytes (pf_decode pf) d1 b")
  have ab: "decode_bytes (pf_decode pf) (ts_decoder st) (a @ b) = (d2, t1 @ t2)"
    by (simp add: decode_bytes_append a b)
  let ?L1 = "split_nl (ts_buffer st @ t1)"
  let ?L2 = "split_nl (last ?L1 @ t2)"
  have L: "split_nl (ts_buffer st @ t1 @ t2) = butlast ?L1 @ ?L2"
    using split_nl_append[of "ts_buffer st @ t1" t2] by simp
  have bl: "butlast (butlast ?L1 @ ?L2) = butlast ?L1 @ butlast ?L2"
    using split_nl_not_Nil[of "last ?L1 @ t2"] by (simp add: butlast_append)
  have la: "last (butlast ?L1 @ ?L2) = last ?L2"
    using split_nl_not_Nil[of "last ?L1 @ t2"] by simp
  let ?st1 = "onChunk pf st a"
  have st1: "?st1 = (foldl (processLine pf) st (butlast ?L1))\<lparr>ts_decoder := d1, ts_buffer := last ?L1\<rparr>"
    by (simp add: onChunk_eq a)
  have "onChunk pf ?st1 b
      = (foldl (processLine pf) ?st1 (butlast ?L2))\<lparr>ts_decoder := d2, ts_buffer := last ?L2\<rparr>"
    by (simp add: onChunk_eq[of pf ?st1 b] onChunk_decoder onChunk_buffer a b)
  also have "\<dots> = (foldl (processLine pf) st (butlast ?L1 @ butlast ?L2))
                    \<lparr>ts_decoder := d2, ts_buffer := last ?L2\<rparr>"
    by (simp add: st1 foldl_processLine_frame)
  also have "\<dots> = onChunk pf st (a @ b)"
    by (simp add: onChunk_eq[of pf st "a @ b"] ab L bl la)
  finally show ?thesis .
qed

lemma onChunk_empty: "10 \<notin> set (ts_buffer st) \<Longrightarrow> onChunk pf st [] = st"
  by (simp add: onChunk_eq split_nl_no_newline)

lemma onChunk_buffer_no_newline: "10 \<notin> set (ts_buffer (onChunk pf st chunk))"
  by (simp add: onChunk_buffer last_split_nl_no_newline)

lemma foldl_onChunk_concat:
  "10 \<notin> set (ts_buffer st) \<Longrightarrow> foldl (onChunk pf) st chunks = onChunk pf st (concat chunks)"
proof (induction chunks arbitrary: st)
  case Nil
  then show ?case by (simp add: onChunk_empty)
next
  case (Cons c chunks)
  from Cons.IH[OF onChunk_buffer_no_newline, of pf st c] show ?case
    by (simp add: onChunk_append)
qed

lemma readLoop_chunks:
  "readLoop pf env st (map ReadChunk chunks) = readLoop pf env (foldl (onChunk pf) st chunks) []"
  by (induction chunks arbitrary: st) simp_all

text \<open>
  Claim C4. Delivering the upstream bytes in any sequence of chunks gives the same result
  as delivering their concatenation in one chunk: the same accumulated text, the same
  events, the same final state. After each read the buffer holds the text after the last
  newline, which contains no newline and is carried into the next read unprocessed.
\<close>

theorem chunking_does_not_change_the_result:
  "start pf env d0 (Some (map ReadChunk chunks)) = start pf env d0 (Some [ReadChunk (concat chunks)])
   \<and> ts_buffer (onChunk pf st chunk)
       = last (split_nl (ts_buffer st @ snd (decode_bytes (pf_decode pf) (ts_decoder st) chunk)))
   \<and> 10 \<notin> set (ts_buffer (onChunk pf st chunk))"
proof (intro conjI)
  have "10 \<notin> set (ts_buffer (initialState d0))" by (simp add: initialState_def)
  from foldl_onChunk_concat[OF this, of pf chunks]
  show "start pf env d0 (Some (map ReadChunk chunks)) = start pf env d0 (Some [ReadChunk (concat chunks)])"
    by (simp add: start_def readLoop_chunks)
qed (rule onChunk_buffer, rule onChunk_buffer_no_newline)


theorem chunking_does_not_change_the_result_witness:
  "start examplePlatform plainEnv () (Some (map ReadChunk splitChunks))
     = Some (\<lparr>ts_decoder = (), ts_buffer = [], ts_fullContent = u16 ''Hi'',
               ts_out = [ContentDelta (JStr (u16 ''Hi'')), Done]\<rparr>, Closed)"
proof -
  have "[ReadChunk (concat splitChunks)] = exampleReads"
    by (simp add: splitChunks_def exampleReads_def u16_def)
  with chunking_does_not_change_the_result[of examplePlatform plainEnv "()" splitChunks]
  show ?thesis by (simp add: exampleReads_run)
qed

end
